theory Spec2Isabelle
  imports Main
begin

section \<open>Python text and values\<close>

text \<open>
  A Python \<open>str\<close> is modelled as a \<open>string\<close> whose characters are the code points below 256.
  \<open>logging\<close> calls have no effect on any value computed by the program and are left out;
  \<open>print\<close> is kept as an event of the trace.
\<close>

abbreviation dq :: char where "dq \<equiv> CHR 0x22"
abbreviation sq :: char where "sq \<equiv> CHR 0x27"
abbreviation nl :: char where "nl \<equiv> CHR 0x0A"

datatype py_error = TypeError | ValueError | IndexError | OtherException

text \<open>\<open>str.isspace\<close> on one character, for the code points below 256.\<close>

definition isspace :: "char \<Rightarrow> bool" where
  "isspace c = ((of_char c :: nat) \<in> {9, 10, 11, 12, 13, 28, 29, 30, 31, 32, 133, 160})"

text \<open>\<open>str.strip()\<close> with no argument.\<close>

definition strip :: "string \<Rightarrow> string" where
  "strip s = rev (dropWhile isspace (rev (dropWhile isspace s)))"

definition lower_char :: "char \<Rightarrow> char" where
  "lower_char c = (let n = of_char c :: nat in
     if (65 \<le> n \<and> n \<le> 90) \<or> (192 \<le> n \<and> n \<le> 222 \<and> n \<noteq> 215)
     then char_of (n + 32) else c)"

text \<open>\<open>str.lower()\<close>.\<close>

definition lower :: "string \<Rightarrow> string" where
  "lower s = map lower_char s"

text \<open>\<open>s.startswith(c)\<close> and \<open>s.endswith(c)\<close> for a one-character \<open>c\<close>.\<close>

definition startswith :: "string \<Rightarrow> char \<Rightarrow> bool" where
  "startswith s c = (case s of [] \<Rightarrow> False | x # _ \<Rightarrow> x = c)"

definition endswith :: "string \<Rightarrow> char \<Rightarrow> bool" where
  "endswith s c = (case rev s of [] \<Rightarrow> False | x # _ \<Rightarrow> x = c)"

text \<open>The slice \<open>s[1:-1]\<close>.\<close>

definition slice_1_m1 :: "string \<Rightarrow> string" where
  "slice_1_m1 s = butlast (tl s)"

fun has_prefix :: "string \<Rightarrow> string \<Rightarrow> bool" where
  "has_prefix [] s = True"
| "has_prefix (p # ps) [] = False"
| "has_prefix (p # ps) (c # cs) = (p = c \<and> has_prefix ps cs)"

text \<open>\<open>sub in s\<close> on strings.\<close>

fun str_in :: "string \<Rightarrow> string \<Rightarrow> bool" where
  "str_in sub [] = has_prefix sub []"
| "str_in sub (c # cs) = (has_prefix sub (c # cs) \<or> str_in sub cs)"

text \<open>\<open>sep.join(xs)\<close>.\<close>

fun join :: "string \<Rightarrow> string list \<Rightarrow> string" where
  "join sep [] = []"
| "join sep [x] = x"
| "join sep (x # y # ys) = x @ sep @ join sep (y # ys)"

text \<open>\<open>str(n)\<close> for a non-negative integer.\<close>

fun str_nat :: "nat \<Rightarrow> string" where
  "str_nat n = (if n < 10 then [char_of (48 + n)]
                else str_nat (n div 10) @ [char_of (48 + n mod 10)])"

declare str_nat.simps [simp del]

subsection \<open>The builtin \<open>int(text)\<close>\<close>

text \<open>
  \<open>int\<close> of a string strips surrounding white space, accepts one optional sign and then
  decimal digits, where single underscores may stand between digits. Everything else raises
  \<open>ValueError\<close>, the only exception it raises on a string; so does, with the default
  setting of the interpreter, a string of more than 4300 digits.
\<close>

definition max_str_digits :: nat where
  "max_str_digits = 4300"

definition int_space :: "char \<Rightarrow> bool" where
  "int_space c = ((of_char c :: nat) \<in> {9, 10, 11, 12, 13, 32, 133, 160})"

definition is_digit :: "char \<Rightarrow> bool" where
  "is_digit c = (48 \<le> (of_char c :: nat) \<and> (of_char c :: nat) \<le> 57)"

definition digit_val :: "char \<Rightarrow> nat" where
  "digit_val c = of_char c - 48"

fun more_digits :: "nat \<Rightarrow> string \<Rightarrow> nat option" where
  "more_digits acc [] = Some acc"
| "more_digits acc (c # cs) =
     (if is_digit c then more_digits (acc * 10 + digit_val c) cs
      else if c = CHR ''_'' then
        (case cs of
           [] \<Rightarrow> None
         | d # ds \<Rightarrow> if is_digit d then more_digits (acc * 10 + digit_val d) ds else None)
      else None)"

definition digits :: "string \<Rightarrow> nat option" where
  "digits s = (case s of
       [] \<Rightarrow> None
     | c # cs \<Rightarrow> if is_digit c then more_digits (digit_val c) cs else None)"

definition py_int :: "string \<Rightarrow> py_error + int" where
  "py_int s =
     (let t = rev (dropWhile int_space (rev (dropWhile int_space s)));
          (neg, body) = (case t of
               [] \<Rightarrow> (False, [])
             | c # cs \<Rightarrow> if c = CHR ''-'' then (True, cs)
                         else if c = CHR ''+'' then (False, cs) else (False, t))
      in case digits body of
           None \<Rightarrow> Inl ValueError
         | Some n \<Rightarrow>
             if length (filter is_digit body) > max_str_digits then Inl ValueError
             else Inr (if neg then - int n else int n))"

text \<open>
  \<open>xs.pop(i)\<close>: the element at index \<open>i\<close> (a negative index counts from the end) and the
  list without it, or \<open>IndexError\<close>.
\<close>

definition list_pop :: "'a list \<Rightarrow> int \<Rightarrow> py_error + ('a \<times> 'a list)" where
  "list_pop xs i =
     (let n = int (length xs); j = (if i < 0 then i + n else i)
      in if 0 \<le> j \<and> j < n
         then Inr (xs ! nat j, take (nat j) xs @ drop (Suc (nat j)) xs)
         else Inl IndexError)"

section \<open>Data model\<close>

text \<open>A turn of the conversation: the dict \<open>{'role': ..., 'content': ...}\<close>.\<close>

record turn =
  role :: string
  content :: string

text \<open>
  The values that reach \<open>should_search_web\<close> and that a decision can take:
  \<open>content and 'true' in content.lower()\<close> is \<open>None\<close>, the empty string or a Boolean.
\<close>

datatype pyval = PyNone | PyBool bool | PyStr string | PyList "turn list"

definition truthy :: "pyval \<Rightarrow> bool" where
  "truthy v = (case v of
       PyNone \<Rightarrow> False
     | PyBool b \<Rightarrow> b
     | PyStr s \<Rightarrow> s \<noteq> []
     | PyList xs \<Rightarrow> xs \<noteq> [])"

text \<open>An anchor of the parsed search page: its \<open>href\<close> attribute, when present, and its text.\<close>

record a_tag =
  href :: "string option"
  tag_text :: string

text \<open>
  One \<open>div\<close> of class \<open>result\<close>: what \<open>find('a', class_='result__a')\<close> and
  \<open>find('a', class_='result__snippet')\<close> return on it.
\<close>

record result_div =
  title_tag :: "a_tag option"
  snippet_tag :: "a_tag option"

text \<open>A search result: the dict with the keys \<open>id\<close>, \<open>title\<close>, \<open>link\<close> and \<open>snippet\<close>.\<close>

record candidate =
  id_cand :: nat
  title :: string
  link :: string
  snippet :: string

text \<open>The prompts of the module \<open>sys_msgs\<close> that the functions below use.\<close>

datatype prompt_name = search_or_not_msg | query_msg | best_search_msg | contains_data_msg

text \<open>
  What the program does to the outside world, in order. A chat call is recorded with the
  prompt it was issued for and the messages it sent.
\<close>

datatype event =
    Chat prompt_name "turn list"
  | ChatStream "turn list"
  | Get string
  | FetchUrl string
  | Print string

text \<open>
  The streaming call either raises at once, or yields tokens and then raises, or yields
  tokens and ends.
\<close>

datatype stream_outcome = ChatRaises | StreamRaises "string list" | StreamEnds "string list"

text \<open>
  The outside world and the module \<open>sys_msgs\<close>, which is not among the sources, are
  parameters. Every service answers as a function of all that happened before the call
  and of the request, so that any sequence of answers is covered.
  \<^item> \<open>sys_msg\<close>: the text of each prompt; \<open>asistant_msg\<close>: the first turn of the history;
  \<^item> \<open>str_format t d\<close>: the builtin \<open>t.format(**d)\<close>, \<open>None\<close> when it raises;
  \<^item> \<open>ollama_chat\<close>: \<open>ollama.chat(...)['message']['content']\<close>, \<open>None\<close> when that raises;
  \<^item> \<open>ollama_chat_stream\<close>: \<open>ollama.chat(..., stream=True)\<close> and the iteration over it;
  \<^item> \<open>requests_get\<close>: \<open>requests.get\<close>, \<open>raise_for_status\<close> and the \<open>div\<close>s of class
    \<open>result\<close> of the parsed body, \<open>None\<close> on a \<open>RequestException\<close>;
  \<^item> \<open>fetch_url\<close> and \<open>extract_text\<close>: \<open>trafilatura.fetch_url\<close> and \<open>trafilatura.extract\<close>, \<open>Inl\<close> when they raise.
\<close>

record env =
  asistant_msg :: turn
  sys_msg :: "prompt_name \<Rightarrow> string"
  str_format :: "string \<Rightarrow> (string \<times> string) list \<Rightarrow> string option"
  ollama_chat :: "event list \<Rightarrow> turn list \<Rightarrow> string option"
  ollama_chat_stream :: "event list \<Rightarrow> turn list \<Rightarrow> stream_outcome"
  requests_get :: "event list \<Rightarrow> string \<Rightarrow> result_div list option"
  fetch_url :: "event list \<Rightarrow> string \<Rightarrow> py_error + string option"
  extract_text :: "string \<Rightarrow> py_error + string option"

definition DUCKDUCKGO_MAX_RESULTS :: nat where
  "DUCKDUCKGO_MAX_RESULTS = 5"

definition SEARCH_RETRY_LIMIT :: nat where
  "SEARCH_RETRY_LIMIT = 3"

section \<open>The helpers of the language-model calls\<close>

definition call_ollama_chat ::
    "env \<Rightarrow> prompt_name \<Rightarrow> (string \<times> string) list \<Rightarrow> event list \<Rightarrow> string option \<times> event list" where
  "call_ollama_chat e p user_data tr =
     (case str_format e (sys_msg e p) user_data of
        None \<Rightarrow> (None, tr)
      | Some system_message_content \<Rightarrow>
          (let messages = \<lparr>role = ''system'', content = system_message_content\<rparr> #
                 (case map_of user_data ''user_prompt_for_llm'' of
                    None \<Rightarrow> []
                  | Some u \<Rightarrow> [\<lparr>role = ''user'', content = u\<rparr>])
           in (ollama_chat e tr messages, tr @ [Chat p messages])))"

definition call_ollama_decide ::
    "env \<Rightarrow> prompt_name \<Rightarrow> turn \<Rightarrow> event list \<Rightarrow> string option \<times> event list" where
  "call_ollama_decide e p last_user_message tr =
     (let messages = [\<lparr>role = ''system'', content = sys_msg e p\<rparr>, last_user_message]
      in (ollama_chat e tr messages, tr @ [Chat p messages]))"

text \<open>\<open>content and 'true' in content.lower()\<close>.\<close>

definition true_in :: "string option \<Rightarrow> pyval" where
  "true_in c = (case c of
       None \<Rightarrow> PyNone
     | Some s \<Rightarrow> if s = [] then PyStr [] else PyBool (str_in ''true'' (lower s)))"

section \<open>Deciding, querying, searching\<close>

text \<open>
  The argument is whatever the caller passes. Subscripting a non-empty string with \<open>-1\<close>
  gives a string, and subscripting that with \<open>'role'\<close> raises \<open>TypeError\<close>, as does
  subscripting \<open>True\<close>.
\<close>

definition should_search_web :: "env \<Rightarrow> pyval \<Rightarrow> event list \<Rightarrow> (py_error + pyval) \<times> event list" where
  "should_search_web e conversation_history tr =
     (case conversation_history of
        PyNone \<Rightarrow> (Inr (PyBool False), tr)
      | PyBool b \<Rightarrow> if b then (Inl TypeError, tr) else (Inr (PyBool False), tr)
      | PyStr s \<Rightarrow> if s = [] then (Inr (PyBool False), tr) else (Inl TypeError, tr)
      | PyList h \<Rightarrow>
          if h = [] \<or> role (last h) \<noteq> ''user'' then (Inr (PyBool False), tr)
          else (let (c, tr') = call_ollama_decide e search_or_not_msg (last h) tr
                in (Inr (true_in c), tr')))"

definition strip_quote :: "char \<Rightarrow> string \<Rightarrow> string" where
  "strip_quote q query = (if startswith query q \<and> endswith query q then slice_1_m1 query else query)"

definition user_data_for_llm :: "string \<Rightarrow> (string \<times> string) list" where
  "user_data_for_llm last_user_prompt_content =
     [(''user_prompt_for_llm'',
       ''CREATE A SEARCH QUERY FOR THIS PROMPT: '' @ [nl] @ last_user_prompt_content)]"

definition generate_search_query :: "env \<Rightarrow> string \<Rightarrow> event list \<Rightarrow> string option \<times> event list" where
  "generate_search_query e last_user_prompt_content tr =
     (let (query, tr') = call_ollama_chat e query_msg (user_data_for_llm last_user_prompt_content) tr
      in case query of
           None \<Rightarrow> (None, tr')
         | Some q \<Rightarrow> if q = [] then (Some q, tr') else (Some (strip_quote sq (strip_quote dq q)), tr'))"

text \<open>
  The loop over \<open>enumerate(soup.find_all('div', class_='result'))\<close>: \<open>i\<close> is the position
  of the block in the document, \<open>results\<close> what has been appended so far.
\<close>

fun parse_results :: "nat \<Rightarrow> result_div list \<Rightarrow> candidate list \<Rightarrow> candidate list" where
  "parse_results i [] results = results"
| "parse_results i (result_div # rest) results =
     (if i \<ge> DUCKDUCKGO_MAX_RESULTS then results
      else case title_tag result_div of
             None \<Rightarrow> parse_results (Suc i) rest results
           | Some t \<Rightarrow>
               (case href t of
                  None \<Rightarrow> parse_results (Suc i) rest results
                | Some h \<Rightarrow>
                    if h = [] then parse_results (Suc i) rest results
                    else parse_results (Suc i) rest
                           (results @
                            [\<lparr>id_cand = i, title = strip (tag_text t), link = h,
                              snippet = (case snippet_tag result_div of
                                           Some s \<Rightarrow> strip (tag_text s)
                                         | None \<Rightarrow> ''No description available.'')\<rparr>])))"

definition perform_duckduckgo_search :: "env \<Rightarrow> string \<Rightarrow> event list \<Rightarrow> candidate list \<times> event list" where
  "perform_duckduckgo_search e query tr =
     (let url = ''https://html.duckduckgo.com/html/?q='' @ query
      in case requests_get e tr url of
           None \<Rightarrow> ([], tr @ [Get url])
         | Some divs \<Rightarrow> (parse_results 0 divs [], tr @ [Get url]))"

section \<open>Selecting a candidate\<close>

definition format_result :: "candidate \<Rightarrow> string" where
  "format_result res =
     ''ID: '' @ str_nat (id_cand res) @ [nl] @ ''Title: '' @ title res @ [nl] @
     ''Link: '' @ link res @ [nl] @ ''Snippet: '' @ snippet res @ [nl] @ ''---''"

definition select_user_data :: "candidate list \<Rightarrow> string \<Rightarrow> string \<Rightarrow> (string \<times> string) list" where
  "select_user_data search_results user_prompt_content generated_query =
     [(''s_results'', join [nl] (map format_result search_results)),
      (''user_prompt'', user_prompt_content),
      (''search_query'', generated_query)]"

text \<open>
  The loop \<open>for attempt in range(SEARCH_RETRY_LIMIT)\<close>, with the attempts that remain.
  Only \<open>ValueError\<close> is caught around \<open>int(content)\<close>.
\<close>

fun select_attempts ::
    "env \<Rightarrow> nat \<Rightarrow> (string \<times> string) list \<Rightarrow> nat \<Rightarrow> event list \<Rightarrow> (py_error + int option) \<times> event list" where
  "select_attempts e 0 user_data len tr = (Inr None, tr)"
| "select_attempts e (Suc k) user_data len tr =
     (case call_ollama_chat e best_search_msg user_data tr of
        (None, tr') \<Rightarrow> select_attempts e k user_data len tr'
      | (Some c, tr') \<Rightarrow>
          if c = [] then select_attempts e k user_data len tr'
          else (case py_int c of
                  Inl ValueError \<Rightarrow> select_attempts e k user_data len tr'
                | Inl err \<Rightarrow> (Inl err, tr')
                | Inr best_id \<Rightarrow>
                    if 0 \<le> best_id \<and> best_id < int len then (Inr (Some best_id), tr')
                    else select_attempts e k user_data len tr'))"

definition select_best_search_result_id ::
    "env \<Rightarrow> candidate list \<Rightarrow> string \<Rightarrow> string \<Rightarrow> event list \<Rightarrow> (py_error + int option) \<times> event list" where
  "select_best_search_result_id e search_results user_prompt_content generated_query tr =
     (if search_results = [] then (Inr None, tr)
      else select_attempts e SEARCH_RETRY_LIMIT
             (select_user_data search_results user_prompt_content generated_query)
             (length search_results) tr)"

section \<open>Scraping and the relevance check\<close>

definition scrape_webpage_content :: "env \<Rightarrow> string \<Rightarrow> event list \<Rightarrow> string option \<times> event list" where
  "scrape_webpage_content e url tr =
     (case fetch_url e tr url of
        Inl err \<Rightarrow> (None, tr @ [FetchUrl url])
      | Inr None \<Rightarrow> (None, tr @ [FetchUrl url])
      | Inr (Some downloaded) \<Rightarrow>
          (case extract_text e downloaded of
             Inl err \<Rightarrow> (None, tr @ [FetchUrl url])
           | Inr None \<Rightarrow> (None, tr @ [FetchUrl url])
           | Inr (Some c) \<Rightarrow> if c = [] then (None, tr @ [FetchUrl url])
                              else (Some c, tr @ [FetchUrl url])))"

definition max_text_len :: nat where
  "max_text_len = 8000"

definition truncated_page_text :: "string \<Rightarrow> string" where
  "truncated_page_text page_text =
     take max_text_len page_text @ (if length page_text > max_text_len then ''...'' else [])"

definition relevance_user_data :: "string \<Rightarrow> string \<Rightarrow> string \<Rightarrow> (string \<times> string) list" where
  "relevance_user_data page_text user_prompt_content generated_query =
     [(''page_text'', truncated_page_text page_text),
      (''user_prompt'', user_prompt_content),
      (''search_query'', generated_query)]"

definition is_content_relevant :: "env \<Rightarrow> string \<Rightarrow> string \<Rightarrow> string \<Rightarrow> event list \<Rightarrow> pyval \<times> event list" where
  "is_content_relevant e page_text user_prompt_content generated_query tr =
     (let (c, tr') = call_ollama_chat e contains_data_msg
                       (relevance_user_data page_text user_prompt_content generated_query) tr
      in (true_in c, tr'))"

section \<open>The pipeline\<close>

text \<open>
  Lines 294 to 313: the candidate an iteration takes out of \<open>available_results\<close> and the
  list that remains; \<open>None\<close> where the source leaves the loop with \<open>break\<close>.
\<close>

definition pop_selected :: "candidate list \<Rightarrow> int option \<Rightarrow> (candidate \<times> candidate list) option" where
  "pop_selected available_results best_result_id =
     (case best_result_id of
        None \<Rightarrow>
          (if available_results = [] then None
           else (case list_pop available_results 0 of Inl err \<Rightarrow> None | Inr r \<Rightarrow> Some r))
      | Some b \<Rightarrow>
          (case list_pop available_results b of
             Inr r \<Rightarrow> Some r
           | Inl err \<Rightarrow>
               (if available_results = [] then None
                else (case list_pop available_results 0 of Inl err' \<Rightarrow> None | Inr r \<Rightarrow> Some r))))"

text \<open>The loop \<open>for _ in range(min(len(available_results), SEARCH_RETRY_LIMIT))\<close>, with the
  iterations that remain.\<close>

fun pipeline_loop ::
    "env \<Rightarrow> nat \<Rightarrow> candidate list \<Rightarrow> string \<Rightarrow> string \<Rightarrow> event list \<Rightarrow> (py_error + string option) \<times> event list" where
  "pipeline_loop e 0 available_results prompt query tr = (Inr None, tr)"
| "pipeline_loop e (Suc n) available_results prompt query tr =
     (if available_results = [] then (Inr None, tr)
      else case select_best_search_result_id e available_results prompt query tr of
         (Inl err, tr1) \<Rightarrow> (Inl err, tr1)
       | (Inr best_result_id, tr1) \<Rightarrow>
           (case pop_selected available_results best_result_id of
              None \<Rightarrow> (Inr None, tr1)
            | Some (selected_result_details, remaining) \<Rightarrow>
                (case scrape_webpage_content e (link selected_result_details) tr1 of
                   (None, tr2) \<Rightarrow> pipeline_loop e n remaining prompt query tr2
                 | (Some page_content, tr2) \<Rightarrow>
                     (case is_content_relevant e page_content prompt query tr2 of
                        (relevant, tr3) \<Rightarrow>
                          if truthy relevant then (Inr (Some page_content), tr3)
                          else pipeline_loop e n remaining prompt query tr3))))"

definition run_ai_search_pipeline ::
    "env \<Rightarrow> string \<Rightarrow> event list \<Rightarrow> (py_error + string option) \<times> event list" where
  "run_ai_search_pipeline e last_user_prompt_content tr =
     (case generate_search_query e last_user_prompt_content tr of
        (None, tr1) \<Rightarrow> (Inr None, tr1)
      | (Some generated_query, tr1) \<Rightarrow>
          if generated_query = [] then (Inr None, tr1)
          else (case perform_duckduckgo_search e generated_query tr1 of
                  (search_results_list, tr2) \<Rightarrow>
                    if search_results_list = [] then (Inr None, tr2)
                    else pipeline_loop e (min (length search_results_list) SEARCH_RETRY_LIMIT)
                           search_results_list last_user_prompt_content generated_query tr2))"

section \<open>Answering and the main loop\<close>

text \<open>
  The global \<open>conversation_history\<close> is passed in and returned. The tokens are printed as
  they arrive; the turn of the assistant is appended only after the last one.
\<close>

definition stream_error :: event where
  "stream_error =
     Print ([nl] @ ''[ERROR] Sorry, I encountered a problem while generating my response.'' @ [nl])"

definition stream_and_record_assistant_response ::
    "env \<Rightarrow> turn list \<Rightarrow> event list \<Rightarrow> turn list \<times> event list" where
  "stream_and_record_assistant_response e conversation_history tr =
     (if conversation_history = [] then (conversation_history, tr)
      else case ollama_chat_stream e tr conversation_history of
         ChatRaises \<Rightarrow>
           (conversation_history, tr @ [ChatStream conversation_history, stream_error])
       | StreamRaises tokens \<Rightarrow>
           (conversation_history,
            tr @ [ChatStream conversation_history, Print ([nl] @ ''ASSISTANT:'' @ [nl])] @
              map Print tokens @ [stream_error])
       | StreamEnds tokens \<Rightarrow>
           (conversation_history @ [\<lparr>role = ''assistant'', content = concat tokens\<rparr>],
            tr @ [ChatStream conversation_history, Print ([nl] @ ''ASSISTANT:'' @ [nl])] @
              map Print tokens @ [Print [nl, nl, nl]]))"

text \<open>
  Lines 406 to 430 of \<open>main\<close>: the last turn is popped and a user turn that restates its
  content is appended. \<open>pop\<close> on an empty list raises \<open>IndexError\<close>.
\<close>

definition prompt_with_context :: "string \<Rightarrow> string \<Rightarrow> string" where
  "prompt_with_context retrieved_context original =
     ''Based on the following information: '' @ [nl] @ ''---BEGIN INFO---'' @ [nl] @
     retrieved_context @ [nl] @ ''---END INFO---'' @ [nl, nl] @
     ''Please answer this question or address this request: '' @ [dq] @ original @ [dq]"

definition prompt_informing_failed_search :: "string \<Rightarrow> string" where
  "prompt_informing_failed_search original =
     ''I tried to find information on the web to answer your request: '' @ [dq] @ original @ [dq] @
     '', but I couldn'' @ [sq] @ ''t find relevant information or the search failed. '' @
     ''Please answer based on your general knowledge, or state that you couldn'' @ [sq] @
     ''t find the specific information.''"

definition replace_pending_user_turn :: "turn list \<Rightarrow> string option \<Rightarrow> py_error + turn list" where
  "replace_pending_user_turn conversation_history retrieved_context =
     (if conversation_history = [] then Inl IndexError
      else (let current_user_message_entry = last conversation_history;
                popped = butlast conversation_history;
                original = content current_user_message_entry
            in case retrieved_context of
                 Some c \<Rightarrow>
                   if c \<noteq> []
                   then Inr (popped @ [\<lparr>role = ''user'', content = prompt_with_context c original\<rparr>])
                   else Inr (popped @ [\<lparr>role = ''user'', content = prompt_informing_failed_search original\<rparr>])
               | None \<Rightarrow>
                   Inr (popped @ [\<lparr>role = ''user'', content = prompt_informing_failed_search original\<rparr>])))"

datatype loop_control = Continue | Break

definition critical_error :: event where
  "critical_error =
     Print ([nl] @ ''[CRITICAL ERROR] An unexpected error occurred. Please check logs. Restarting loop if possible.'' @ [nl])"

text \<open>
  One pass through the body of \<open>while True\<close> in \<open>main\<close>, on the line that \<open>input\<close> returns.
  \<open>should_search_web\<close> receives \<open>last_user_prompt_content\<close>, the text of the line. An
  exception of the body is caught by \<open>except Exception\<close>, which prints and goes on.
\<close>

definition main_iteration ::
    "env \<Rightarrow> string \<Rightarrow> turn list \<times> event list \<Rightarrow> loop_control \<times> turn list \<times> event list" where
  "main_iteration e user_input st =
     (let conversation_history = fst st; tr0 = snd st @ [Print (''USER: '' @ [nl])]
      in if lower user_input \<in> set [''quit'', ''exit''] then (Break, conversation_history, tr0)
         else if strip user_input = [] then (Continue, conversation_history, tr0)
         else
           (let h1 = conversation_history @ [\<lparr>role = ''user'', content = user_input\<rparr>];
                last_user_prompt_content = user_input
            in case should_search_web e (PyStr last_user_prompt_content) tr0 of
                 (Inl err, tr1) \<Rightarrow> (Continue, h1, tr1 @ [critical_error])
               | (Inr decision, tr1) \<Rightarrow>
                   if truthy decision then
                     (case run_ai_search_pipeline e last_user_prompt_content tr1 of
                        (Inl err, tr2) \<Rightarrow> (Continue, h1, tr2 @ [critical_error])
                      | (Inr retrieved_context, tr2) \<Rightarrow>
                          (case replace_pending_user_turn h1 retrieved_context of
                             Inl err \<Rightarrow> (Continue, h1, tr2 @ [critical_error])
                           | Inr h2 \<Rightarrow>
                               (Continue, stream_and_record_assistant_response e h2 tr2)))
                   else (Continue, stream_and_record_assistant_response e h1 tr1)))"

text \<open>
  The loop of \<open>main\<close> over the lines typed, until \<open>quit\<close> or \<open>exit\<close> or the last line. A
  \<open>KeyboardInterrupt\<close> only ends the loop and is not among the inputs.
\<close>

fun main_loop :: "env \<Rightarrow> string list \<Rightarrow> turn list \<times> event list \<Rightarrow> turn list \<times> event list" where
  "main_loop e [] st = st"
| "main_loop e (user_input # rest) st =
     (case main_iteration e user_input st of
        (Break, st') \<Rightarrow> st'
      | (Continue, st') \<Rightarrow> main_loop e rest st')"

definition main :: "env \<Rightarrow> string list \<Rightarrow> turn list \<times> event list" where
  "main e inputs = main_loop e inputs ([asistant_msg e], [])"

section \<open>Observations\<close>

text \<open>The calls that ask the model to select a candidate.\<close>

definition is_select_call :: "event \<Rightarrow> bool" where
  "is_select_call ev = (case ev of Chat p m \<Rightarrow> p = best_search_msg | _ \<Rightarrow> False)"

definition select_calls :: "event list \<Rightarrow> nat" where
  "select_calls tr = length (filter is_select_call tr)"

text \<open>The links whose pages were fetched, in the order of the fetches.\<close>

fun fetched :: "event list \<Rightarrow> string list" where
  "fetched [] = []"
| "fetched (FetchUrl u # tr) = u # fetched tr"
| "fetched (ev # tr) = fetched tr"

text \<open>The streaming call failed: it raised at once or while the tokens arrived.\<close>

definition stream_fails :: "stream_outcome \<Rightarrow> bool" where
  "stream_fails outcome = (case outcome of StreamEnds tokens \<Rightarrow> False | _ \<Rightarrow> True)"

text \<open>Two neighbouring turns of the history with the role \<open>user\<close>.\<close>

fun consecutive_users :: "turn list \<Rightarrow> bool" where
  "consecutive_users (x # y # rest) =
     ((role x = ''user'' \<and> role y = ''user'') \<or> consecutive_users (y # rest))"
| "consecutive_users rest = False"

text \<open>
  What one pass of the loop of \<open>perform_duckduckgo_search\<close> appends for the block at
  position \<open>i\<close> of the document: nothing when the title anchor or its link is missing or
  the link is empty, else the candidate.
\<close>

definition block_candidate :: "nat \<Rightarrow> result_div \<Rightarrow> candidate option" where
  "block_candidate i d =
     (case title_tag d of
        None \<Rightarrow> None
      | Some t \<Rightarrow>
          (case href t of
             None \<Rightarrow> None
           | Some h \<Rightarrow>
               if h = [] then None
               else Some \<lparr>id_cand = i, title = strip (tag_text t), link = h,
                         snippet = (case snippet_tag d of
                                      Some s \<Rightarrow> strip (tag_text s)
                                    | None \<Rightarrow> ''No description available.'')\<rparr>))"

section \<open>The candidates tried in their order\<close>

text \<open>
  The loop of the pipeline as the property of the fallback reads it, to be compared with
  \<open>pipeline_loop\<close>: of at most \<open>n\<close> candidates, each is taken from the front of the list
  after the selection has been asked, and its page is scraped; the first page that is
  scraped and judged relevant is returned and ends the loop, and \<open>None\<close> is returned when
  the candidates or the iterations are used up.
\<close>

fun try_in_order ::
    "env \<Rightarrow> nat \<Rightarrow> candidate list \<Rightarrow> string \<Rightarrow> string \<Rightarrow> event list \<Rightarrow> string option \<times> event list" where
  "try_in_order e 0 rs prompt query tr = (None, tr)"
| "try_in_order e (Suc n) [] prompt query tr = (None, tr)"
| "try_in_order e (Suc n) (r # rest) prompt query tr =
     (case scrape_webpage_content e (link r)
             (snd (select_best_search_result_id e (r # rest) prompt query tr)) of
        (None, tr2) \<Rightarrow> try_in_order e n rest prompt query tr2
      | (Some page_content, tr2) \<Rightarrow>
          (case is_content_relevant e page_content prompt query tr2 of
             (relevant, tr3) \<Rightarrow>
               if truthy relevant then (Some page_content, tr3)
               else try_in_order e n rest prompt query tr3))"

text \<open>
  \<open>select_best_search_result_id\<close> returns \<open>None\<close> on every call that is made while the
  candidates are tried in their order: on the whole list at the start, and on what is
  left of it after each candidate whose page was not scraped or not judged relevant.
\<close>

fun no_selection_throughout ::
    "env \<Rightarrow> nat \<Rightarrow> candidate list \<Rightarrow> string \<Rightarrow> string \<Rightarrow> event list \<Rightarrow> bool" where
  "no_selection_throughout e 0 rs prompt query tr = True"
| "no_selection_throughout e (Suc n) [] prompt query tr = True"
| "no_selection_throughout e (Suc n) (r # rest) prompt query tr =
     (fst (select_best_search_result_id e (r # rest) prompt query tr) = Inr None \<and>
      (case scrape_webpage_content e (link r)
              (snd (select_best_search_result_id e (r # rest) prompt query tr)) of
         (None, tr2) \<Rightarrow> no_selection_throughout e n rest prompt query tr2
       | (Some page_content, tr2) \<Rightarrow>
           (case is_content_relevant e page_content prompt query tr2 of
              (relevant, tr3) \<Rightarrow>
                truthy relevant \<or> no_selection_throughout e n rest prompt query tr3)))"

section \<open>Environments for the instances\<close>

text \<open>
  An outside world that gives the same answer to every call of a kind: \<open>reply\<close> to every
  chat call, \<open>divs\<close> to every search, \<open>page\<close> to every fetch and \<open>outcome\<close> to every
  streaming call. Formatting a prompt returns its template.
\<close>

definition fixed_env :: "string option \<Rightarrow> result_div list \<Rightarrow> string option \<Rightarrow> stream_outcome \<Rightarrow> env" where
  "fixed_env reply divs page outcome =
     \<lparr>asistant_msg = \<lparr>role = ''system'', content = ''You are an AI assistant.''\<rparr>,
      sys_msg = (\<lambda>p. ''prompt''),
      str_format = (\<lambda>t d. Some t),
      ollama_chat = (\<lambda>tr messages. reply),
      ollama_chat_stream = (\<lambda>tr messages. outcome),
      requests_get = (\<lambda>tr url. Some divs),
      fetch_url = (\<lambda>tr url. Inr page),
      extract_text = (\<lambda>downloaded. Inr (Some downloaded))\<rparr>"

text \<open>
  The same world, except that formatting a prompt appends the values of the data, in
  their order, to the template.
\<close>

definition appending_env :: "string option \<Rightarrow> env" where
  "appending_env reply =
     (fixed_env reply [] None ChatRaises)\<lparr>str_format := (\<lambda>t d. Some (t @ concat (map snd d)))\<rparr>"

text \<open>A result block with a title anchor and a snippet, and one without a title anchor.\<close>

definition full_div :: "string \<Rightarrow> string \<Rightarrow> string \<Rightarrow> result_div" where
  "full_div t h s =
     \<lparr>title_tag = Some \<lparr>href = Some h, tag_text = t\<rparr>,
      snippet_tag = Some \<lparr>href = None, tag_text = s\<rparr>\<rparr>"

definition untitled_div :: result_div where
  "untitled_div = \<lparr>title_tag = None, snippet_tag = None\<rparr>"

definition three_divs :: "result_div list" where
  "three_divs = [full_div ''A'' ''http://a'' ''a'', full_div ''B'' ''http://b'' ''b'',
                 full_div ''C'' ''http://c'' ''c'']"

definition four_divs :: "result_div list" where
  "four_divs = three_divs @ [full_div ''D'' ''http://d'' ''d'']"

text \<open>The candidates that the search returns for \<open>three_divs\<close>.\<close>

definition three_candidates :: "candidate list" where
  "three_candidates =
     [\<lparr>id_cand = 0, title = ''A'', link = ''http://a'', snippet = ''a''\<rparr>,
      \<lparr>id_cand = 1, title = ''B'', link = ''http://b'', snippet = ''b''\<rparr>,
      \<lparr>id_cand = 2, title = ''C'', link = ''http://c'', snippet = ''c''\<rparr>]"

section \<open>The decision short-circuits without a user turn\<close>

text \<open>
  C7. For a history that is empty or whose last turn does not have the role \<open>user\<close>,
  \<open>should_search_web\<close> returns \<open>False\<close> and the trace is the one it was given: no call
  to the language model, nor any other event, takes place.
\<close>

theorem should_search_web_short_circuit:
  "h = [] \<or> role (last h) \<noteq> ''user'' \<Longrightarrow>
   should_search_web e (PyList h) tr = (Inr (PyBool False), tr)"
  by (simp add: should_search_web_def)

theorem should_search_web_short_circuit_witness:
  "role (last [\<lparr>role = ''system'', content = ''s''\<rparr>, \<lparr>role = ''assistant'', content = ''hi''\<rparr>]) \<noteq> ''user'' \<and>
   should_search_web (fixed_env (Some ''true'') [] None ChatRaises)
     (PyList [\<lparr>role = ''system'', content = ''s''\<rparr>, \<lparr>role = ''assistant'', content = ''hi''\<rparr>]) [] =
     (Inr (PyBool False), [])"
  using should_search_web_short_circuit
    [of "[\<lparr>role = ''system'', content = ''s''\<rparr>, \<lparr>role = ''assistant'', content = ''hi''\<rparr>]"
      "fixed_env (Some ''true'') [] None ChatRaises" "[]"]
  by simp

section \<open>The page text of the relevance prompt\<close>

lemma truncated_page_text_eq:
  "truncated_page_text t = (if 8000 < length t then take 8000 t @ ''...'' else t)"
  by (simp add: truncated_page_text_def max_text_len_def)

lemma relevance_user_data_eq:
  "relevance_user_data t p q =
     [(''page_text'', if 8000 < length t then take 8000 t @ ''...'' else t),
      (''user_prompt'', p), (''search_query'', q)]"
  unfolding relevance_user_data_def truncated_page_text_eq ..

lemma relevance_has_no_user_prompt:
  "map_of (relevance_user_data t p q) ''user_prompt_for_llm'' = None"
  by (simp add: relevance_user_data_def)

text \<open>
  C8. The text that \<open>is_content_relevant\<close> hands to the prompt, under the key
  \<open>page_text\<close>, is the whole text when it has at most 8000 characters, and its first 8000
  characters followed by \<open>...\<close> when it is longer; the marker follows 8000 characters
  exactly when the text is longer than 8000. The one message of the call that is made is
  the system message whose content is the prompt \<open>contains_data_msg\<close> formatted with that
  text, the request and the query; the model is asked with this message and the call is
  recorded with it. When the prompt cannot be formatted, no call is made.
\<close>

theorem is_content_relevant_page_text:
  "(\<forall>sys. str_format e (sys_msg e contains_data_msg)
            [(''page_text'', if 8000 < length t then take 8000 t @ ''...'' else t),
             (''user_prompt'', p), (''search_query'', q)] = Some sys \<longrightarrow>
      is_content_relevant e t p q tr =
        (true_in (ollama_chat e tr [\<lparr>role = ''system'', content = sys\<rparr>]),
         tr @ [Chat contains_data_msg [\<lparr>role = ''system'', content = sys\<rparr>]])) \<and>
   (str_format e (sys_msg e contains_data_msg)
            [(''page_text'', if 8000 < length t then take 8000 t @ ''...'' else t),
             (''user_prompt'', p), (''search_query'', q)] = None \<longrightarrow>
      is_content_relevant e t p q tr = (PyNone, tr)) \<and>
   is_content_relevant e t p q tr =
     (true_in (fst (call_ollama_chat e contains_data_msg
        [(''page_text'', if 8000 < length t then take 8000 t @ ''...'' else t),
         (''user_prompt'', p), (''search_query'', q)] tr)),
      snd (call_ollama_chat e contains_data_msg
        [(''page_text'', if 8000 < length t then take 8000 t @ ''...'' else t),
         (''user_prompt'', p), (''search_query'', q)] tr)) \<and>
   map_of (relevance_user_data t p q) ''page_text'' = Some (truncated_page_text t) \<and>
   truncated_page_text t = (if 8000 < length t then take 8000 t @ ''...'' else t) \<and>
   ((\<exists>pre. length pre = 8000 \<and> truncated_page_text t = pre @ ''...'') = (8000 < length t))"
proof -
  let ?d = "[(''page_text'', if 8000 < length t then take 8000 t @ ''...'' else t),
             (''user_prompt'', p), (''search_query'', q)]"
  have d: "relevance_user_data t p q = ?d" by (rule relevance_user_data_eq)
  have nouser: "map_of ?d ''user_prompt_for_llm'' = None"
    using relevance_has_no_user_prompt [of t p q] unfolding d .
  have sent: "\<forall>sys. str_format e (sys_msg e contains_data_msg) ?d = Some sys \<longrightarrow>
      is_content_relevant e t p q tr =
        (true_in (ollama_chat e tr [\<lparr>role = ''system'', content = sys\<rparr>]),
         tr @ [Chat contains_data_msg [\<lparr>role = ''system'', content = sys\<rparr>]])"
  proof (intro allI impI)
    fix sys
    assume f: "str_format e (sys_msg e contains_data_msg) ?d = Some sys"
    have "call_ollama_chat e contains_data_msg ?d tr =
        (ollama_chat e tr [\<lparr>role = ''system'', content = sys\<rparr>],
         tr @ [Chat contains_data_msg [\<lparr>role = ''system'', content = sys\<rparr>]])"
      unfolding call_ollama_chat_def f nouser by (simp add: Let_def)
    then show "is_content_relevant e t p q tr =
        (true_in (ollama_chat e tr [\<lparr>role = ''system'', content = sys\<rparr>]),
         tr @ [Chat contains_data_msg [\<lparr>role = ''system'', content = sys\<rparr>]])"
      unfolding is_content_relevant_def d by simp
  qed
  have unsent: "str_format e (sys_msg e contains_data_msg) ?d = None \<longrightarrow>
      is_content_relevant e t p q tr = (PyNone, tr)"
  proof
    assume f: "str_format e (sys_msg e contains_data_msg) ?d = None"
    have "call_ollama_chat e contains_data_msg ?d tr = (None, tr)"
      unfolding call_ollama_chat_def f by simp
    then show "is_content_relevant e t p q tr = (PyNone, tr)"
      unfolding is_content_relevant_def d by (simp add: true_in_def)
  qed
  have a: "map_of (relevance_user_data t p q) ''page_text'' = Some (truncated_page_text t)"
    by (simp add: relevance_user_data_def)
  have b: "truncated_page_text t = (if 8000 < length t then take 8000 t @ ''...'' else t)"
    by (rule truncated_page_text_eq)
  have c: "(\<exists>pre. length pre = 8000 \<and> truncated_page_text t = pre @ ''...'') = (8000 < length t)"
  proof
    assume "\<exists>pre. length pre = 8000 \<and> truncated_page_text t = pre @ ''...''"
    then obtain pre where pre: "length pre = 8000" "truncated_page_text t = pre @ ''...''"
      by blast
    show "8000 < length t"
    proof (rule ccontr)
      assume short: "\<not> 8000 < length t"
      then have "truncated_page_text t = t" by (simp add: b)
      with pre have "length t = 8003" by simp
      with short show False by simp
    qed
  next
    assume "8000 < length t"
    then have "length (take 8000 t) = 8000 \<and> truncated_page_text t = take 8000 t @ ''...''"
      by (simp add: b)
    then show "\<exists>pre. length pre = 8000 \<and> truncated_page_text t = pre @ ''...''" by blast
  qed
  have e: "is_content_relevant e t p q tr =
     (true_in (fst (call_ollama_chat e contains_data_msg ?d tr)),
      snd (call_ollama_chat e contains_data_msg ?d tr))"
    unfolding is_content_relevant_def d by (simp split: prod.splits)
  from sent unsent e a b c show ?thesis by blast
qed

theorem is_content_relevant_page_text_witness:
  "str_format (appending_env (Some ''it is true'')) (sys_msg (appending_env (Some ''it is true'')) contains_data_msg)
      [(''page_text'', take 8000 (replicate 8001 (CHR ''a'')) @ ''...''),
       (''user_prompt'', ''p''), (''search_query'', ''q'')]
     = Some (''prompt'' @ replicate 8000 (CHR ''a'') @ ''...pq'') \<and>
   is_content_relevant (appending_env (Some ''it is true'')) (replicate 8001 (CHR ''a'')) ''p'' ''q'' [] =
     (PyBool True,
      [Chat contains_data_msg
         [\<lparr>role = ''system'', content = ''prompt'' @ replicate 8000 (CHR ''a'') @ ''...pq''\<rparr>]])"
proof -
  let ?e = "appending_env (Some ''it is true'')"
  let ?t = "replicate 8001 (CHR ''a'')"
  let ?sys = "''prompt'' @ replicate 8000 (CHR ''a'') @ ''...pq''"
  have long: "8000 < length ?t" by simp
  have f: "str_format ?e (sys_msg ?e contains_data_msg)
      [(''page_text'', take 8000 ?t @ ''...''), (''user_prompt'', ''p''), (''search_query'', ''q'')]
     = Some ?sys"
    by (simp add: appending_env_def fixed_env_def)
  have f': "str_format ?e (sys_msg ?e contains_data_msg)
      [(''page_text'', if 8000 < length ?t then take 8000 ?t @ ''...'' else ?t),
       (''user_prompt'', ''p''), (''search_query'', ''q'')] = Some ?sys"
    using f long by simp
  have reply: "true_in (ollama_chat ?e [] [\<lparr>role = ''system'', content = ?sys\<rparr>]) = PyBool True"
    by (simp add: appending_env_def fixed_env_def true_in_def lower_def lower_char_def)
  from is_content_relevant_page_text [of ?e ?t "''p''" "''q''" "[]"] f'
  have "is_content_relevant ?e ?t ''p'' ''q'' [] =
        (true_in (ollama_chat ?e [] [\<lparr>role = ''system'', content = ?sys\<rparr>]),
         [] @ [Chat contains_data_msg [\<lparr>role = ''system'', content = ?sys\<rparr>]])"
    by blast
  with reply f show ?thesis by simp
qed

section \<open>A failed streaming call\<close>

text \<open>
  C9. When the streaming call of \<open>stream_and_record_assistant_response\<close> fails, at once
  or after some tokens, the history returned is the history given, with no turn of the
  assistant and nothing of the tokens received, and the last thing printed is the error
  message for the user.
\<close>

theorem stream_failure_keeps_history:
  "h \<noteq> [] \<Longrightarrow> stream_fails (ollama_chat_stream e tr h) \<Longrightarrow>
   fst (stream_and_record_assistant_response e h tr) = h \<and>
   last (snd (stream_and_record_assistant_response e h tr)) = stream_error"
  by (auto simp: stream_and_record_assistant_response_def stream_fails_def
           split: stream_outcome.splits)

theorem stream_failure_keeps_history_witness:
  "[\<lparr>role = ''user'', content = ''hi''\<rparr>] \<noteq> [] \<and>
   stream_fails (ollama_chat_stream (fixed_env None [] None (StreamRaises [''par'', ''tial''])) []
       [\<lparr>role = ''user'', content = ''hi''\<rparr>]) \<and>
   fst (stream_and_record_assistant_response (fixed_env None [] None (StreamRaises [''par'', ''tial'']))
       [\<lparr>role = ''user'', content = ''hi''\<rparr>] []) = [\<lparr>role = ''user'', content = ''hi''\<rparr>] \<and>
   last (snd (stream_and_record_assistant_response (fixed_env None [] None (StreamRaises [''par'', ''tial'']))
       [\<lparr>role = ''user'', content = ''hi''\<rparr>] [])) = stream_error"
proof -
  have h1: "[\<lparr>role = ''user'', content = ''hi''\<rparr>] \<noteq> []" by simp
  have h2: "stream_fails (ollama_chat_stream (fixed_env None [] None (StreamRaises [''par'', ''tial''])) []
       [\<lparr>role = ''user'', content = ''hi''\<rparr>])"
    by (simp add: fixed_env_def stream_fails_def)
  from stream_failure_keeps_history [OF h1 h2] h1 h2 show ?thesis by blast
qed

section \<open>Quotes around the generated query\<close>

lemma slice_wrapped: "slice_1_m1 (a # m @ [b]) = m"
  by (simp add: slice_1_m1_def butlast_append)

lemma startswith_Cons: "startswith (a # m) c = (a = c)"
  by (simp add: startswith_def)

lemma endswith_snoc: "endswith (m @ [b]) c = (b = c)"
  by (simp add: endswith_def)

lemma endswith_Cons_snoc: "endswith (a # m @ [b]) c = (b = c)"
  using endswith_snoc [of "a # m" b c] by simp

lemma generate_search_query_Some:
  "fst (call_ollama_chat e query_msg (user_data_for_llm p) tr) = Some q \<Longrightarrow> q \<noteq> [] \<Longrightarrow>
   fst (generate_search_query e p tr) = Some (strip_quote sq (strip_quote dq q))"
  by (cases "call_ollama_chat e query_msg (user_data_for_llm p) tr")
     (simp add: generate_search_query_def)

text \<open>
  C4, as the code has it. On a non-empty reply \<open>q\<close> of the model, \<open>generate_search_query\<close>
  first removes one pair of double quotes when \<open>q\<close> starts and ends with one, and then one
  pair of single quotes when what is left starts and ends with one. So a reply of the form
  \<open>"'k'"\<close> loses both pairs; a reply \<open>"m"\<close> whose inside is not wrapped in single quotes loses
  the double quotes only; a reply \<open>'m'\<close> loses the single quotes only, whatever \<open>m\<close> holds;
  and a reply that is wrapped in neither kind is returned as it is.
\<close>

theorem generate_search_query_quote_layers:
  assumes reply: "fst (call_ollama_chat e query_msg (user_data_for_llm p) tr) = Some q"
    and nonempty: "q \<noteq> []"
  shows "\<exists>r. fst (generate_search_query e p tr) = Some r \<and>
     (\<forall>k. q = [dq, sq] @ k @ [sq, dq] \<longrightarrow> r = k) \<and>
     (\<forall>m. q = [dq] @ m @ [dq] \<longrightarrow> \<not> (startswith m sq \<and> endswith m sq) \<longrightarrow> r = m) \<and>
     (\<forall>m. q = [sq] @ m @ [sq] \<longrightarrow> r = m) \<and>
     (\<not> (startswith q dq \<and> endswith q dq) \<longrightarrow> \<not> (startswith q sq \<and> endswith q sq) \<longrightarrow> r = q)"
proof -
  let ?r = "strip_quote sq (strip_quote dq q)"
  have r: "fst (generate_search_query e p tr) = Some ?r"
    using reply nonempty by (rule generate_search_query_Some)
  have both: "\<forall>k. q = [dq, sq] @ k @ [sq, dq] \<longrightarrow> ?r = k"
  proof (intro allI impI)
    fix k assume q: "q = [dq, sq] @ k @ [sq, dq]"
    have "q = dq # (sq # k @ [sq]) @ [dq]" by (simp add: q)
    then have "strip_quote dq q = sq # k @ [sq]"
      by (simp only: strip_quote_def startswith_Cons endswith_Cons_snoc slice_wrapped) simp
    then show "?r = k"
      by (simp only: strip_quote_def startswith_Cons endswith_Cons_snoc slice_wrapped) simp
  qed
  have double: "\<forall>m. q = [dq] @ m @ [dq] \<longrightarrow> \<not> (startswith m sq \<and> endswith m sq) \<longrightarrow> ?r = m"
  proof (intro allI impI)
    fix m assume q: "q = [dq] @ m @ [dq]" and m: "\<not> (startswith m sq \<and> endswith m sq)"
    have "q = dq # m @ [dq]" by (simp add: q)
    then have "strip_quote dq q = m"
      by (simp only: strip_quote_def startswith_Cons endswith_Cons_snoc slice_wrapped) simp
    moreover have "strip_quote sq m = m" using m by (auto simp: strip_quote_def)
    ultimately show "?r = m" by simp
  qed
  have single: "\<forall>m. q = [sq] @ m @ [sq] \<longrightarrow> ?r = m"
  proof (intro allI impI)
    fix m assume q: "q = [sq] @ m @ [sq]"
    have q': "q = sq # m @ [sq]" by (simp add: q)
    then have "strip_quote dq q = q"
      by (simp add: strip_quote_def startswith_Cons)
    then show "?r = m"
      by (simp add: q' strip_quote_def startswith_Cons endswith_Cons_snoc slice_wrapped)
  qed
  have none: "\<not> (startswith q dq \<and> endswith q dq) \<longrightarrow> \<not> (startswith q sq \<and> endswith q sq) \<longrightarrow> ?r = q"
    by (simp add: strip_quote_def)
  from r both double single none show ?thesis by blast
qed

theorem generate_search_query_quote_layers_witness:
  "fst (call_ollama_chat (fixed_env (Some ([dq, sq] @ ''python'' @ [sq, dq])) [] None ChatRaises)
        query_msg (user_data_for_llm ''p'') []) = Some ([dq, sq] @ ''python'' @ [sq, dq]) \<and>
   [dq, sq] @ ''python'' @ [sq, dq] \<noteq> [] \<and>
   fst (generate_search_query (fixed_env (Some ([dq, sq] @ ''python'' @ [sq, dq])) [] None ChatRaises)
        ''p'' []) = Some ''python''"
proof -
  let ?e = "fixed_env (Some ([dq, sq] @ ''python'' @ [sq, dq])) [] None ChatRaises"
  let ?q = "[dq, sq] @ ''python'' @ [sq, dq]"
  have h1: "fst (call_ollama_chat ?e query_msg (user_data_for_llm ''p'') []) = Some ?q"
    by (simp add: call_ollama_chat_def fixed_env_def user_data_for_llm_def)
  have h2: "?q \<noteq> []" by simp
  from generate_search_query_quote_layers [OF h1 h2] obtain r where
    r: "fst (generate_search_query ?e ''p'' []) = Some r"
    and k: "\<forall>k. ?q = [dq, sq] @ k @ [sq, dq] \<longrightarrow> r = k" by blast
  from k have "r = ''python''" by blast
  with r h1 h2 show ?thesis by blast
qed

text \<open>
  The reply \<open>"'python'"\<close>, a single-quoted word inside double quotes, comes back as
  \<open>python\<close>: neither the reply itself nor the reply without its outer pair.
\<close>

theorem generate_search_query_strips_two_layers:
  "fst (generate_search_query (fixed_env (Some ([dq, sq] @ ''python'' @ [sq, dq])) [] None ChatRaises)
        ''p'' []) = Some ''python'' \<and>
   ''python'' \<noteq> [dq, sq] @ ''python'' @ [sq, dq] \<and>
   ''python'' \<noteq> slice_1_m1 ([dq, sq] @ ''python'' @ [sq, dq])"
  by (simp add: generate_search_query_def call_ollama_chat_def fixed_env_def user_data_for_llm_def
      strip_quote_def startswith_def endswith_def slice_1_m1_def)

section \<open>The decision as \<open>main\<close> calls it\<close>

lemma should_search_web_str:
  "s \<noteq> [] \<Longrightarrow> should_search_web e (PyStr s) tr = (Inl TypeError, tr)"
  by (simp add: should_search_web_def)

lemma strip_nonempty: "strip s \<noteq> [] \<Longrightarrow> s \<noteq> []"
  by (auto simp: strip_def)

lemma main_iteration_cases:
  "main_iteration e s (h, tr) =
     (if lower s \<in> set [''quit'', ''exit''] then (Break, h, tr @ [Print (''USER: '' @ [nl])])
      else if strip s = [] then (Continue, h, tr @ [Print (''USER: '' @ [nl])])
      else (Continue, h @ [\<lparr>role = ''user'', content = s\<rparr>],
            tr @ [Print (''USER: '' @ [nl]), critical_error]))"
proof -
  have "strip s \<noteq> [] \<Longrightarrow> should_search_web e (PyStr s) (tr @ [Print (''USER: '' @ [nl])])
      = (Inl TypeError, tr @ [Print (''USER: '' @ [nl])])"
    by (rule should_search_web_str) (rule strip_nonempty)
  then show ?thesis
    by (simp add: main_iteration_def Let_def)
qed

text \<open>
  C10, as the code has it. On every non-empty string \<open>should_search_web\<close> raises
  \<open>TypeError\<close> and makes no call. \<open>main\<close> passes it the line typed, so an iteration whose
  line is neither \<open>quit\<close> nor \<open>exit\<close> in any letter case and is not made of white space only
  appends the user turn, reaches that error and ends in the handler of \<open>except Exception\<close>,
  which prints the critical error. Every iteration ends in one of three ways: the loop is
  left, the line is skipped, or that handler runs; the decision never returns to \<open>main\<close>.
\<close>

theorem should_search_web_raises_from_main:
  "(s \<noteq> [] \<longrightarrow> should_search_web e (PyStr s) tr = (Inl TypeError, tr)) \<and>
   (lower s \<notin> set [''quit'', ''exit''] \<longrightarrow> strip s \<noteq> [] \<longrightarrow>
      main_iteration e s (h, tr) =
        (Continue, h @ [\<lparr>role = ''user'', content = s\<rparr>],
         tr @ [Print (''USER: '' @ [nl]), critical_error])) \<and>
   main_iteration e s (h, tr) \<in>
     {(Break, h, tr @ [Print (''USER: '' @ [nl])]),
      (Continue, h, tr @ [Print (''USER: '' @ [nl])]),
      (Continue, h @ [\<lparr>role = ''user'', content = s\<rparr>],
       tr @ [Print (''USER: '' @ [nl]), critical_error])}"
  using should_search_web_str [of s e tr] main_iteration_cases [of e s h tr]
  by auto

theorem should_search_web_raises_from_main_witness:
  "''weather in Paris'' \<noteq> [] \<and> lower ''weather in Paris'' \<notin> set [''quit'', ''exit''] \<and>
   strip ''weather in Paris'' \<noteq> [] \<and>
   should_search_web (fixed_env (Some ''true'') three_divs (Some ''page'') (StreamEnds [''ok'']))
      (PyStr ''weather in Paris'') [] = (Inl TypeError, []) \<and>
   main_iteration (fixed_env (Some ''true'') three_divs (Some ''page'') (StreamEnds [''ok'']))
      ''weather in Paris'' ([\<lparr>role = ''system'', content = ''s''\<rparr>], []) =
     (Continue, [\<lparr>role = ''system'', content = ''s''\<rparr>, \<lparr>role = ''user'', content = ''weather in Paris''\<rparr>],
      [Print (''USER: '' @ [nl]), critical_error])"
proof -
  have h1: "''weather in Paris'' \<noteq> []" by simp
  have h2: "lower ''weather in Paris'' \<notin> set [''quit'', ''exit'']" by (simp add: lower_def)
  have h3: "strip ''weather in Paris'' \<noteq> []" by (simp add: strip_def isspace_def)
  from should_search_web_raises_from_main [of "''weather in Paris''"
      "fixed_env (Some ''true'') three_divs (Some ''page'') (StreamEnds [''ok''])" "[]"
      "[\<lparr>role = ''system'', content = ''s''\<rparr>]"] h1 h2 h3
  show ?thesis by simp
qed

text \<open>
  Two non-empty lines that do not reach the error: a line of one space is skipped, and
  \<open>quit\<close> leaves the loop. In both the history is unchanged and no critical error is printed.
\<close>

theorem main_iteration_skips_blank_and_quit:
  "'' '' \<noteq> [] \<and> ''quit'' \<noteq> [] \<and>
   main_iteration (fixed_env (Some ''true'') three_divs (Some ''page'') (StreamEnds [''ok'']))
      '' '' ([\<lparr>role = ''system'', content = ''s''\<rparr>], []) =
     (Continue, [\<lparr>role = ''system'', content = ''s''\<rparr>], [Print (''USER: '' @ [nl])]) \<and>
   main_iteration (fixed_env (Some ''true'') three_divs (Some ''page'') (StreamEnds [''ok'']))
      ''quit'' ([\<lparr>role = ''system'', content = ''s''\<rparr>], []) =
     (Break, [\<lparr>role = ''system'', content = ''s''\<rparr>], [Print (''USER: '' @ [nl])]) \<and>
   critical_error \<notin> set [Print (''USER: '' @ [nl])]"
  by (simp add: main_iteration_cases lower_def lower_char_def strip_def isspace_def critical_error_def)

section \<open>Parsing the search results\<close>

lemma parse_results_step:
  "i < DUCKDUCKGO_MAX_RESULTS \<Longrightarrow>
   parse_results i (d # ds) acc =
     parse_results (Suc i) ds (acc @ (case block_candidate i d of None \<Rightarrow> [] | Some c \<Rightarrow> [c]))"
  by (simp add: block_candidate_def split: option.splits)

lemma parse_results_eq:
  "parse_results i ds acc =
     acc @ List.map_filter (\<lambda>(j, d). block_candidate j d)
             (zip [i ..< DUCKDUCKGO_MAX_RESULTS] ds)"
proof (induction ds arbitrary: i acc)
  case Nil
  then show ?case by (simp add: List.map_filter_simps)
next
  case (Cons d ds)
  show ?case
  proof (cases "i < DUCKDUCKGO_MAX_RESULTS")
    case True
    then have up: "[i ..< DUCKDUCKGO_MAX_RESULTS] = i # [Suc i ..< DUCKDUCKGO_MAX_RESULTS]"
      by (simp add: upt_conv_Cons)
    show ?thesis
      unfolding parse_results_step [OF True] Cons.IH up
      by (simp add: List.map_filter_simps split: option.splits)
  next
    case False
    then show ?thesis by (simp add: List.map_filter_simps)
  qed
qed

text \<open>
  What holds of the result in general. The candidates returned are those of the first five blocks of
  the document that have a title anchor with a non-empty link, in the order of the
  document, each with the position of its block as \<open>id\<close>; so there are at most five, and
  their \<open>id\<close>s increase strictly.
\<close>

lemma perform_duckduckgo_search_blocks:
  assumes "requests_get e tr (''https://html.duckduckgo.com/html/?q='' @ query) = Some divs"
  shows "fst (perform_duckduckgo_search e query tr) =
           List.map_filter (\<lambda>(j, d). block_candidate j d) (zip [0 ..< 5] divs)"
  using assms
  by (simp add: perform_duckduckgo_search_def parse_results_eq DUCKDUCKGO_MAX_RESULTS_def)

lemma map_filter_length: "length (List.map_filter f xs) \<le> length xs"
  by (simp add: List.map_filter_def)

lemma perform_duckduckgo_search_at_most_5:
  "length (fst (perform_duckduckgo_search e query tr)) \<le> 5"
proof (cases "requests_get e tr (''https://html.duckduckgo.com/html/?q='' @ query)")
  case None
  then show ?thesis by (simp add: perform_duckduckgo_search_def)
next
  case (Some divs)
  have "length (List.map_filter (\<lambda>(j, d). block_candidate j d) (zip [0 ..< 5] divs))
          \<le> length (zip [0 ..< 5] divs)"
    by (rule map_filter_length)
  also have "\<dots> \<le> 5" by simp
  finally show ?thesis
    by (simp only: perform_duckduckgo_search_blocks [OF Some])
qed

lemma block_candidate_id: "block_candidate j d = Some c \<Longrightarrow> id_cand c = j"
  by (auto simp: block_candidate_def split: option.splits if_splits)

lemma ids_increase_from:
  "sorted_wrt (<) (map id_cand (List.map_filter (\<lambda>(j, d). block_candidate j d) (zip [i ..< n] ds))) \<and>
   (\<forall>c \<in> set (List.map_filter (\<lambda>(j, d). block_candidate j d) (zip [i ..< n] ds)). i \<le> id_cand c)"
proof (induction ds arbitrary: i)
  case Nil
  then show ?case by (simp add: List.map_filter_simps)
next
  case (Cons d ds)
  show ?case
  proof (cases "i < n")
    case False
    then show ?thesis by (simp add: List.map_filter_simps)
  next
    case True
    then have up: "[i ..< n] = i # [Suc i ..< n]" by (simp add: upt_conv_Cons)
    from Cons.IH [of "Suc i"] show ?thesis
      unfolding up
      by (fastforce simp: List.map_filter_simps dest: block_candidate_id split: option.splits)
  qed
qed

lemma perform_duckduckgo_search_ids_increase:
  "sorted_wrt (<) (map id_cand (fst (perform_duckduckgo_search e query tr)))"
proof (cases "requests_get e tr (''https://html.duckduckgo.com/html/?q='' @ query)")
  case None
  then show ?thesis by (simp add: perform_duckduckgo_search_def)
next
  case (Some divs)
  show ?thesis
    unfolding perform_duckduckgo_search_blocks [OF Some]
    using ids_increase_from [of 0 5 divs] by blast
qed

text \<open>
  C3, where the code departs from it. The \<open>id\<close> of a candidate is the position of its
  block among all the blocks, counted by \<open>enumerate\<close> before the block is skipped or
  kept. For a document whose first block has no title anchor and whose second block is
  complete, the only candidate returned has the \<open>id\<close> 1 and not 0: the \<open>id\<close>s returned are
  not 0, 1, 2, ... without gaps.
\<close>

theorem perform_duckduckgo_search_id_gap:
  "fst (perform_duckduckgo_search
          (fixed_env None [untitled_div, full_div ''A'' ''http://a'' ''a''] None ChatRaises) ''q'' [])
   = [\<lparr>id_cand = 1, title = ''A'', link = ''http://a'', snippet = ''a''\<rparr>]"
  by (simp add: perform_duckduckgo_search_def fixed_env_def untitled_div_def full_div_def
      DUCKDUCKGO_MAX_RESULTS_def strip_def isspace_def)

section \<open>What the selection returns\<close>

lemma py_int_raises_only_ValueError: "py_int s = Inl err \<Longrightarrow> err = ValueError"
  by (auto simp: py_int_def Let_def split: prod.splits option.splits if_splits)

lemma select_calls_append [simp]: "select_calls (tr @ tr') = select_calls tr + select_calls tr'"
  by (simp add: select_calls_def)

lemma call_ollama_chat_best_calls:
  "select_calls (snd (call_ollama_chat e best_search_msg ud tr)) =
     select_calls tr + (if str_format e (sys_msg e best_search_msg) ud = None then 0 else 1)"
  by (auto simp: call_ollama_chat_def select_calls_def is_select_call_def Let_def
           split: option.splits)

lemma select_attempts_result:
  "(\<exists>b. fst (select_attempts e k ud len tr) = Inr (Some b) \<and> 0 \<le> b \<and> b < int len) \<or>
   fst (select_attempts e k ud len tr) = Inr None"
proof (induction k arbitrary: tr)
  case 0
  show ?case by simp
next
  case (Suc k)
  obtain c tr' where call: "call_ollama_chat e best_search_msg ud tr = (c, tr')"
    by (cases "call_ollama_chat e best_search_msg ud tr")
  show ?case
  proof (cases c)
    case None
    with call Suc.IH [of tr'] show ?thesis by simp
  next
    case (Some s)
    show ?thesis
    proof (cases "py_int s")
      case (Inl err)
      then have "err = ValueError" by (rule py_int_raises_only_ValueError)
      with call Some Inl Suc.IH [of tr'] show ?thesis by simp
    next
      case (Inr best_id)
      with call Some Suc.IH [of tr'] show ?thesis by simp
    qed
  qed
qed

lemma select_attempts_calls_le:
  "select_calls (snd (select_attempts e k ud len tr)) \<le> select_calls tr + k"
proof (induction k arbitrary: tr)
  case 0
  show ?case by simp
next
  case (Suc k)
  obtain c tr' where call: "call_ollama_chat e best_search_msg ud tr = (c, tr')"
    by (cases "call_ollama_chat e best_search_msg ud tr")
  have step: "select_calls tr' \<le> select_calls tr + 1"
    using call_ollama_chat_best_calls [of e ud tr] call by (simp split: if_splits)
  have rec: "select_calls (snd (select_attempts e k ud len tr')) \<le> select_calls tr + Suc k"
    using Suc.IH [of tr'] step by simp
  show ?case
  proof (cases c)
    case None
    with call rec show ?thesis by simp
  next
    case (Some s)
    show ?thesis
    proof (cases "py_int s")
      case (Inl err)
      with call Some rec step show ?thesis by (cases err) simp_all
    next
      case (Inr best_id)
      with call Some rec step show ?thesis by simp
    qed
  qed
qed

lemma select_attempts_exhausted:
  assumes fmt: "str_format e (sys_msg e best_search_msg) ud \<noteq> None"
  shows "fst (select_attempts e k ud len tr) = Inr None \<Longrightarrow>
         select_calls (snd (select_attempts e k ud len tr)) = select_calls tr + k"
proof (induction k arbitrary: tr)
  case 0
  show ?case by simp
next
  case (Suc k)
  obtain c tr' where call: "call_ollama_chat e best_search_msg ud tr = (c, tr')"
    by (cases "call_ollama_chat e best_search_msg ud tr")
  have step: "select_calls tr' = select_calls tr + 1"
    using call_ollama_chat_best_calls [of e ud tr] call fmt by simp
  show ?case
  proof (cases c)
    case None
    with call Suc.prems Suc.IH [of tr'] step show ?thesis by simp
  next
    case (Some s)
    show ?thesis
    proof (cases "py_int s")
      case (Inl err)
      then have "err = ValueError" by (rule py_int_raises_only_ValueError)
      with call Some Inl Suc.prems Suc.IH [of tr'] step show ?thesis
        by (cases "s = []") simp_all
    next
      case (Inr best_id)
      with call Some Suc.prems Suc.IH [of tr'] step show ?thesis
        by (auto split: if_splits)
    qed
  qed
qed

text \<open>
  C6. On a non-empty list of candidates \<open>select_best_search_result_id\<close> raises nothing: it
  returns an integer \<open>b\<close> with \<open>0 \<le> b < len(search_results)\<close>, or \<open>None\<close>. It returns
  \<open>None\<close> only after all its attempts: when the prompt can be formatted, three calls to
  the model have then been made.
\<close>

theorem select_best_search_result_id_in_range:
  assumes "rs \<noteq> []"
  shows "((\<exists>b. fst (select_best_search_result_id e rs p q tr) = Inr (Some b) \<and>
             0 \<le> b \<and> b < int (length rs)) \<or>
          fst (select_best_search_result_id e rs p q tr) = Inr None) \<and>
         (str_format e (sys_msg e best_search_msg) (select_user_data rs p q) \<noteq> None \<longrightarrow>
          fst (select_best_search_result_id e rs p q tr) = Inr None \<longrightarrow>
          select_calls (snd (select_best_search_result_id e rs p q tr)) = select_calls tr + 3)"
  using assms
    select_attempts_result [of e SEARCH_RETRY_LIMIT "select_user_data rs p q" "length rs" tr]
    select_attempts_exhausted [of e "select_user_data rs p q" SEARCH_RETRY_LIMIT "length rs" tr]
  by (simp add: select_best_search_result_id_def SEARCH_RETRY_LIMIT_def)

theorem select_best_search_result_id_in_range_witness:
  "three_candidates \<noteq> [] \<and>
   fst (select_best_search_result_id (fixed_env (Some '' 1 '') [] None ChatRaises)
          three_candidates ''p'' ''q'' []) = Inr (Some 1) \<and>
   (1::int) < int (length three_candidates) \<and>
   str_format (fixed_env (Some ''7'') [] None ChatRaises)
      (sys_msg (fixed_env (Some ''7'') [] None ChatRaises) best_search_msg)
      (select_user_data three_candidates ''p'' ''q'') \<noteq> None \<and>
   fst (select_best_search_result_id (fixed_env (Some ''7'') [] None ChatRaises)
          three_candidates ''p'' ''q'' []) = Inr None \<and>
   select_calls (snd (select_best_search_result_id (fixed_env (Some ''7'') [] None ChatRaises)
          three_candidates ''p'' ''q'' [])) = 3"
proof -
  let ?e1 = "fixed_env (Some '' 1 '') [] None ChatRaises"
  let ?e7 = "fixed_env (Some ''7'') [] None ChatRaises"
  have h: "three_candidates \<noteq> []" by (simp add: three_candidates_def)
  have r1: "fst (select_best_search_result_id ?e1 three_candidates ''p'' ''q'' []) = Inr (Some 1)"
    by code_simp
  have len: "(1::int) < int (length three_candidates)" by (simp add: three_candidates_def)
  have fmt: "str_format ?e7 (sys_msg ?e7 best_search_msg)
      (select_user_data three_candidates ''p'' ''q'') \<noteq> None"
    by (simp add: fixed_env_def)
  have r7: "fst (select_best_search_result_id ?e7 three_candidates ''p'' ''q'' []) = Inr None"
    by code_simp
  from select_best_search_result_id_in_range [OF h, of ?e7 "''p''" "''q''" "[]"] fmt r7
  have "select_calls (snd (select_best_search_result_id ?e7 three_candidates ''p'' ''q'' [])) =
          select_calls [] + 3"
    by blast
  then have calls: "select_calls (snd (select_best_search_result_id ?e7 three_candidates ''p'' ''q'' [])) = 3"
    by (simp add: select_calls_def)
  from h r1 len fmt r7 calls show ?thesis by blast
qed

section \<open>How many selection calls a pipeline run makes\<close>

lemma call_ollama_chat_other_calls:
  "t \<noteq> best_search_msg \<Longrightarrow>
   select_calls (snd (call_ollama_chat e t ud tr)) = select_calls tr"
  by (auto simp: call_ollama_chat_def select_calls_def is_select_call_def Let_def
           split: option.splits)

lemma select_best_calls_le:
  "select_calls (snd (select_best_search_result_id e rs p q tr)) \<le> select_calls tr + 3"
  using select_attempts_calls_le [of e SEARCH_RETRY_LIMIT "select_user_data rs p q" "length rs" tr]
  by (simp add: select_best_search_result_id_def SEARCH_RETRY_LIMIT_def)

lemma scrape_trace:
  "snd (scrape_webpage_content e url tr) = tr @ [FetchUrl url]"
  by (simp add: scrape_webpage_content_def split: sum.splits option.splits)

lemma scrape_calls:
  "select_calls (snd (scrape_webpage_content e url tr)) = select_calls tr"
  by (simp add: scrape_trace) (simp add: select_calls_def is_select_call_def)

lemma is_content_relevant_calls:
  "select_calls (snd (is_content_relevant e t p q tr)) = select_calls tr"
proof -
  obtain c tr' where call:
    "call_ollama_chat e contains_data_msg (relevance_user_data t p q) tr = (c, tr')"
    by (cases "call_ollama_chat e contains_data_msg (relevance_user_data t p q) tr")
  have "select_calls tr' = select_calls tr"
    using call_ollama_chat_other_calls [of contains_data_msg e "relevance_user_data t p q" tr] call
    by simp
  with call show ?thesis by (simp add: is_content_relevant_def)
qed

lemma generate_search_query_calls:
  "select_calls (snd (generate_search_query e p tr)) = select_calls tr"
proof -
  obtain c tr' where call: "call_ollama_chat e query_msg (user_data_for_llm p) tr = (c, tr')"
    by (cases "call_ollama_chat e query_msg (user_data_for_llm p) tr")
  have "select_calls tr' = select_calls tr"
    using call_ollama_chat_other_calls [of query_msg e "user_data_for_llm p" tr] call by simp
  with call show ?thesis
    by (simp add: generate_search_query_def split: option.splits)
qed

lemma perform_duckduckgo_search_calls:
  "select_calls (snd (perform_duckduckgo_search e query tr)) = select_calls tr"
  by (simp add: perform_duckduckgo_search_def Let_def split: option.splits)
     (simp add: select_calls_def is_select_call_def)

lemma list_pop_length:
  "list_pop xs i = Inr (x, rest) \<Longrightarrow> Suc (length rest) = length xs"
  by (auto simp: list_pop_def Let_def split: if_splits)

lemma pop_selected_length:
  "pop_selected rs best = Some (selected, remaining) \<Longrightarrow> Suc (length remaining) = length rs"
  by (auto simp: pop_selected_def split: option.splits sum.splits if_splits
           dest: list_pop_length)

lemma pipeline_loop_calls_le:
  "select_calls (snd (pipeline_loop e n rs p q tr)) \<le> select_calls tr + 3 * min n (length rs)"
proof (induction n arbitrary: rs tr)
  case 0
  show ?case by simp
next
  case (Suc n)
  show ?case
  proof (cases "rs = []")
    case True
    then show ?thesis by simp
  next
    case False
    obtain best tr1 where sel: "select_best_search_result_id e rs p q tr = (best, tr1)"
      by (cases "select_best_search_result_id e rs p q tr")
    have c1: "select_calls tr1 \<le> select_calls tr + 3"
      using select_best_calls_le [of e rs p q tr] sel by simp
    have "3 \<le> 3 * min (Suc n) (length rs)" using False by (cases rs) simp_all
    with c1 have stop: "select_calls tr1 \<le> select_calls tr + 3 * min (Suc n) (length rs)"
      by linarith
    show ?thesis
    proof (cases best)
      case (Inl err)
      with False sel stop show ?thesis by simp
    next
      case (Inr best_result_id)
      show ?thesis
      proof (cases "pop_selected rs best_result_id")
        case None
        with False sel Inr stop show ?thesis by simp
      next
        case (Some popped)
        obtain selected remaining where popped: "popped = (selected, remaining)"
          by (cases popped)
        have len: "Suc (length remaining) = length rs"
          using Some popped by (simp add: pop_selected_length)
        then have m: "3 * min (Suc n) (length rs) = 3 + 3 * min n (length remaining)"
          by (metis min_Suc_Suc mult_Suc_right)
        obtain page tr2 where scr: "scrape_webpage_content e (link selected) tr1 = (page, tr2)"
          by (cases "scrape_webpage_content e (link selected) tr1")
        have c2: "select_calls tr2 = select_calls tr1"
          using scrape_calls [of e "link selected" tr1] scr by simp
        show ?thesis
        proof (cases page)
          case None
          have "select_calls (snd (pipeline_loop e n remaining p q tr2))
                  \<le> select_calls tr2 + 3 * min n (length remaining)"
            by (rule Suc.IH)
          with False sel Inr Some popped scr None c1 c2 m show ?thesis by simp
        next
          case (Some page_content)
          obtain relevant tr3 where
            rel: "is_content_relevant e page_content p q tr2 = (relevant, tr3)"
            by (cases "is_content_relevant e page_content p q tr2")
          have c3: "select_calls tr3 = select_calls tr2"
            using is_content_relevant_calls [of e page_content p q tr2] rel by simp
          have "select_calls (snd (pipeline_loop e n remaining p q tr3))
                  \<le> select_calls tr3 + 3 * min n (length remaining)"
            by (rule Suc.IH)
          with False sel Inr \<open>pop_selected rs best_result_id = Some popped\<close> popped scr Some rel
            c1 c2 c3 m
          show ?thesis by simp
        qed
      qed
    qed
  qed
qed

text \<open>
  C1, as the code has it. Each call of \<open>select_best_search_result_id\<close> asks the model at
  most three times, and each iteration of the loop of \<open>run_ai_search_pipeline\<close> calls it
  afresh. A loop of \<open>n\<close> iterations over the candidates \<open>rs\<close> asks at most
  \<open>3 * min(n, len(rs))\<close> times. A run whose query is \<open>gq\<close> asks at most
  \<open>3 * min(c, 3)\<close> times, where \<open>c\<close> is the number of candidates that its search returns;
  a run without a query asks never; and every run asks at most nine times.
\<close>

theorem selection_calls_per_run:
  "select_calls (snd (select_best_search_result_id e rs p q tr)) \<le> select_calls tr + 3 \<and>
   select_calls (snd (pipeline_loop e n rs p q tr)) \<le> select_calls tr + 3 * min n (length rs) \<and>
   (\<forall>gq. fst (generate_search_query e p tr) = Some gq \<longrightarrow> gq \<noteq> [] \<longrightarrow>
      select_calls (snd (run_ai_search_pipeline e p tr))
        \<le> select_calls tr +
           3 * min (length (fst (perform_duckduckgo_search e gq
                                   (snd (generate_search_query e p tr))))) 3) \<and>
   (fst (generate_search_query e p tr) = None \<or> fst (generate_search_query e p tr) = Some [] \<longrightarrow>
      select_calls (snd (run_ai_search_pipeline e p tr)) = select_calls tr) \<and>
   select_calls (snd (run_ai_search_pipeline e p tr)) \<le> select_calls tr + 9"
proof -
  obtain g tr1 where gen: "generate_search_query e p tr = (g, tr1)"
    by (cases "generate_search_query e p tr")
  have c1: "select_calls tr1 = select_calls tr"
    using generate_search_query_calls [of e p tr] gen by simp
  have with_query: "select_calls (snd (run_ai_search_pipeline e p tr))
        \<le> select_calls tr + 3 * min (length (fst (perform_duckduckgo_search e gq tr1))) 3"
    if g: "g = Some gq" and gq: "gq \<noteq> []" for gq
  proof -
    obtain results tr2 where search: "perform_duckduckgo_search e gq tr1 = (results, tr2)"
      by (cases "perform_duckduckgo_search e gq tr1")
    have c2: "select_calls tr2 = select_calls tr"
      using perform_duckduckgo_search_calls [of e gq tr1] search c1 by simp
    show ?thesis
    proof (cases "results = []")
      case True
      with gen g gq search c2 show ?thesis by (simp add: run_ai_search_pipeline_def)
    next
      case False
      have "select_calls (snd (pipeline_loop e (min (length results) SEARCH_RETRY_LIMIT)
                results p gq tr2))
            \<le> select_calls tr2 + 3 * min (min (length results) SEARCH_RETRY_LIMIT) (length results)"
        by (rule pipeline_loop_calls_le)
      also have "\<dots> = select_calls tr + 3 * min (length results) 3"
        by (simp add: SEARCH_RETRY_LIMIT_def c2)
      finally show ?thesis
        using gen g gq search False by (simp add: run_ai_search_pipeline_def)
    qed
  qed
  have without_query: "select_calls (snd (run_ai_search_pipeline e p tr)) = select_calls tr"
    if "g = None \<or> g = Some []"
    using that gen c1 by (auto simp: run_ai_search_pipeline_def)
  have nine: "select_calls (snd (run_ai_search_pipeline e p tr)) \<le> select_calls tr + 9"
  proof (cases "g = None \<or> g = Some []")
    case True
    with without_query show ?thesis by simp
  next
    case False
    then obtain gq where g: "g = Some gq" and gq: "gq \<noteq> []" by (cases g) auto
    have "3 * min (length (fst (perform_duckduckgo_search e gq tr1))) 3 \<le> (9::nat)" by simp
    with with_query [OF g gq] show ?thesis by simp
  qed
  from select_best_calls_le [of e rs p q tr] pipeline_loop_calls_le [of e n rs p q tr]
    with_query without_query nine gen
  show ?thesis by simp
qed

theorem selection_calls_per_run_witness:
  "fst (generate_search_query (fixed_env (Some ''none'') [full_div ''A'' ''http://a'' ''a''] None ChatRaises)
          ''p'' []) = Some ''none'' \<and>
   ''none'' \<noteq> [] \<and>
   length (fst (perform_duckduckgo_search
                  (fixed_env (Some ''none'') [full_div ''A'' ''http://a'' ''a''] None ChatRaises) ''none''
                  (snd (generate_search_query
                          (fixed_env (Some ''none'') [full_div ''A'' ''http://a'' ''a''] None ChatRaises)
                          ''p'' [])))) = 1 \<and>
   select_calls (snd (run_ai_search_pipeline
                  (fixed_env (Some ''none'') [full_div ''A'' ''http://a'' ''a''] None ChatRaises) ''p'' []))
     \<le> 3"
proof -
  let ?e = "fixed_env (Some ''none'') [full_div ''A'' ''http://a'' ''a''] None ChatRaises"
  have gen: "fst (generate_search_query ?e ''p'' []) = Some ''none''"
    by code_simp
  have q: "''none'' \<noteq> []" by simp
  have len: "length (fst (perform_duckduckgo_search ?e ''none''
                (snd (generate_search_query ?e ''p'' [])))) = 1"
    by code_simp
  from selection_calls_per_run [of ?e "[]" "''p''" "''q''" "[]" 0] gen q
  have "select_calls (snd (run_ai_search_pipeline ?e ''p'' []))
        \<le> select_calls [] + 3 * min (length (fst (perform_duckduckgo_search ?e ''none''
                (snd (generate_search_query ?e ''p'' []))))) 3"
    by blast
  then have "select_calls (snd (run_ai_search_pipeline ?e ''p'' [])) \<le> 3"
    unfolding len by (simp add: select_calls_def)
  with gen q len show ?thesis by blast
qed

text \<open>
  A run on three candidates in which every reply of the model is the word \<open>none\<close> and no
  page can be fetched makes nine selection calls, three in each of its three iterations.
\<close>

theorem nine_selection_calls_in_one_run:
  "select_calls (snd (run_ai_search_pipeline (fixed_env (Some ''none'') three_divs None ChatRaises) ''p'' []))
     = 9 \<and>
   \<not> select_calls (snd (run_ai_search_pipeline (fixed_env (Some ''none'') three_divs None ChatRaises) ''p'' []))
     \<le> 3"
  by code_simp

section \<open>The order of the candidates when no selection is made\<close>

lemma fetched_append [simp]: "fetched (tr @ tr') = fetched tr @ fetched tr'"
  by (induction tr rule: fetched.induct) simp_all

lemma fetched_call_ollama_chat:
  "fetched (snd (call_ollama_chat e t ud tr)) = fetched tr"
  by (simp add: call_ollama_chat_def Let_def split: option.splits)

lemma fetched_select_attempts:
  "fetched (snd (select_attempts e k ud len tr)) = fetched tr"
proof (induction k arbitrary: tr)
  case 0
  show ?case by simp
next
  case (Suc k)
  obtain c tr' where call: "call_ollama_chat e best_search_msg ud tr = (c, tr')"
    by (cases "call_ollama_chat e best_search_msg ud tr")
  have step: "fetched tr' = fetched tr"
    using fetched_call_ollama_chat [of e best_search_msg ud tr] call by simp
  have rec: "fetched (snd (select_attempts e k ud len tr')) = fetched tr"
    using Suc.IH [of tr'] step by simp
  show ?case
  proof (cases c)
    case None
    with call rec show ?thesis by simp
  next
    case (Some s)
    show ?thesis
    proof (cases "py_int s")
      case (Inl err)
      with call Some rec step show ?thesis by (cases err) simp_all
    next
      case (Inr best_id)
      with call Some rec step show ?thesis by simp
    qed
  qed
qed

lemma fetched_select_best:
  "fetched (snd (select_best_search_result_id e rs p q tr)) = fetched tr"
  by (simp add: select_best_search_result_id_def fetched_select_attempts)

lemma fetched_is_content_relevant:
  "fetched (snd (is_content_relevant e t p q tr)) = fetched tr"
proof -
  obtain c tr' where call:
    "call_ollama_chat e contains_data_msg (relevance_user_data t p q) tr = (c, tr')"
    by (cases "call_ollama_chat e contains_data_msg (relevance_user_data t p q) tr")
  have "fetched tr' = fetched tr"
    using fetched_call_ollama_chat [of e contains_data_msg "relevance_user_data t p q" tr] call
    by simp
  with call show ?thesis by (simp add: is_content_relevant_def)
qed

lemma fetched_generate_search_query:
  "fetched (snd (generate_search_query e p tr)) = fetched tr"
proof -
  obtain c tr' where call: "call_ollama_chat e query_msg (user_data_for_llm p) tr = (c, tr')"
    by (cases "call_ollama_chat e query_msg (user_data_for_llm p) tr")
  have "fetched tr' = fetched tr"
    using fetched_call_ollama_chat [of e query_msg "user_data_for_llm p" tr] call by simp
  with call show ?thesis
    by (simp add: generate_search_query_def split: option.splits)
qed

lemma fetched_perform_duckduckgo_search:
  "fetched (snd (perform_duckduckgo_search e query tr)) = fetched tr"
  by (simp add: perform_duckduckgo_search_def Let_def split: option.splits)

lemma pop_selected_first:
  "pop_selected (r # rest) None = Some (r, rest)"
  by (simp add: pop_selected_def list_pop_def)

text \<open>
  When no selection is made on any call, the loop of the pipeline is the loop that tries
  the candidates in their order.
\<close>

lemma pipeline_loop_tries_in_order:
  "no_selection_throughout e n rs p q tr \<Longrightarrow>
   pipeline_loop e n rs p q tr =
     (Inr (fst (try_in_order e n rs p q tr)), snd (try_in_order e n rs p q tr))"
proof (induction n arbitrary: rs tr)
  case 0
  show ?case by simp
next
  case (Suc n)
  show ?case
  proof (cases rs)
    case Nil
    then show ?thesis by simp
  next
    case (Cons r rest)
    obtain best tr1 where sel1: "select_best_search_result_id e (r # rest) p q tr = (best, tr1)"
      by (cases "select_best_search_result_id e (r # rest) p q tr")
    have best: "best = Inr None" using Suc.prems Cons sel1 by simp
    obtain page tr2 where scr: "scrape_webpage_content e (link r) tr1 = (page, tr2)"
      by (cases "scrape_webpage_content e (link r) tr1")
    show ?thesis
    proof (cases page)
      case None
      have "no_selection_throughout e n rest p q tr2"
        using Suc.prems Cons sel1 scr None by simp
      then have "pipeline_loop e n rest p q tr2 =
          (Inr (fst (try_in_order e n rest p q tr2)), snd (try_in_order e n rest p q tr2))"
        by (rule Suc.IH)
      with Cons sel1 best scr None show ?thesis by (simp add: pop_selected_first)
    next
      case (Some page_content)
      obtain relevant tr3 where
        rel: "is_content_relevant e page_content p q tr2 = (relevant, tr3)"
        by (cases "is_content_relevant e page_content p q tr2")
      show ?thesis
      proof (cases "truthy relevant")
        case True
        with Cons sel1 best scr Some rel show ?thesis by (simp add: pop_selected_first)
      next
        case False
        have "no_selection_throughout e n rest p q tr3"
          using Suc.prems Cons sel1 scr Some rel False by simp
        then have "pipeline_loop e n rest p q tr3 =
            (Inr (fst (try_in_order e n rest p q tr3)), snd (try_in_order e n rest p q tr3))"
          by (rule Suc.IH)
        with Cons sel1 best scr Some rel False show ?thesis by (simp add: pop_selected_first)
      qed
    qed
  qed
qed

text \<open>
  Trying the candidates in their order fetches the links of the first \<open>k\<close> candidates, and
  either nothing was relevant and \<open>k\<close> is the smaller of the bound and the number of
  candidates, or the page of candidate \<open>k\<close> was scraped and judged relevant and is the
  result.
\<close>

lemma try_in_order_fetched:
  "\<exists>k. k \<le> min n (length rs) \<and>
     fetched (snd (try_in_order e n rs p q tr)) = fetched tr @ map link (take k rs) \<and>
     ((fst (try_in_order e n rs p q tr) = None \<and> k = min n (length rs)) \<or>
      (\<exists>c tr1. fst (try_in_order e n rs p q tr) = Some c \<and> 0 < k \<and>
         fst (scrape_webpage_content e (link (rs ! (k - 1))) tr1) = Some c \<and>
         truthy (fst (is_content_relevant e c p q
                   (snd (scrape_webpage_content e (link (rs ! (k - 1))) tr1))))))"
proof (induction n arbitrary: rs tr)
  case 0
  show ?case by simp
next
  case (Suc n)
  show ?case
  proof (cases rs)
    case Nil
    then show ?thesis by simp
  next
    case (Cons r rest)
    let ?tr1 = "snd (select_best_search_result_id e (r # rest) p q tr)"
    have f1: "fetched ?tr1 = fetched tr" by (rule fetched_select_best)
    obtain page tr2 where scr: "scrape_webpage_content e (link r) ?tr1 = (page, tr2)"
      by (cases "scrape_webpage_content e (link r) ?tr1")
    have f2: "fetched tr2 = fetched tr @ [link r]"
      using scrape_trace [of e "link r" ?tr1] scr f1 by simp
    have unfold: "try_in_order e (Suc n) rs p q tr =
        (case page of
           None \<Rightarrow> try_in_order e n rest p q tr2
         | Some page_content \<Rightarrow>
             (case is_content_relevant e page_content p q tr2 of
                (relevant, tr3) \<Rightarrow>
                  if truthy relevant then (Some page_content, tr3)
                  else try_in_order e n rest p q tr3))"
      using Cons scr by simp
    have continue: "\<exists>k. k \<le> min (Suc n) (length rs) \<and>
        fetched (snd (try_in_order e n rest p q tr')) = fetched tr @ map link (take k rs) \<and>
        ((fst (try_in_order e n rest p q tr') = None \<and> k = min (Suc n) (length rs)) \<or>
         (\<exists>c tr1. fst (try_in_order e n rest p q tr') = Some c \<and> 0 < k \<and>
            fst (scrape_webpage_content e (link (rs ! (k - 1))) tr1) = Some c \<and>
            truthy (fst (is_content_relevant e c p q
                      (snd (scrape_webpage_content e (link (rs ! (k - 1))) tr1))))))"
      if f: "fetched tr' = fetched tr @ [link r]" for tr'
    proof -
      from Suc.IH [of rest tr'] obtain k where
        k: "k \<le> min n (length rest)"
        and fk: "fetched (snd (try_in_order e n rest p q tr')) = fetched tr' @ map link (take k rest)"
        and res: "(fst (try_in_order e n rest p q tr') = None \<and> k = min n (length rest)) \<or>
          (\<exists>c tr1. fst (try_in_order e n rest p q tr') = Some c \<and> 0 < k \<and>
             fst (scrape_webpage_content e (link (rest ! (k - 1))) tr1) = Some c \<and>
             truthy (fst (is_content_relevant e c p q
                       (snd (scrape_webpage_content e (link (rest ! (k - 1))) tr1)))))"
        by blast
      have a: "Suc k \<le> min (Suc n) (length rs)" using k Cons by simp
      have b: "fetched (snd (try_in_order e n rest p q tr')) =
                 fetched tr @ map link (take (Suc k) rs)"
        using fk f Cons by simp
      have nth: "0 < k \<Longrightarrow> rs ! (Suc k - 1) = rest ! (k - 1)"
        using Cons by (cases k) simp_all
      have c: "(fst (try_in_order e n rest p q tr') = None \<and> Suc k = min (Suc n) (length rs)) \<or>
          (\<exists>c tr1. fst (try_in_order e n rest p q tr') = Some c \<and> 0 < Suc k \<and>
             fst (scrape_webpage_content e (link (rs ! (Suc k - 1))) tr1) = Some c \<and>
             truthy (fst (is_content_relevant e c p q
                       (snd (scrape_webpage_content e (link (rs ! (Suc k - 1))) tr1)))))"
        using res
      proof
        assume "fst (try_in_order e n rest p q tr') = None \<and> k = min n (length rest)"
        then show ?thesis using Cons by simp
      next
        assume "\<exists>c tr1. fst (try_in_order e n rest p q tr') = Some c \<and> 0 < k \<and>
             fst (scrape_webpage_content e (link (rest ! (k - 1))) tr1) = Some c \<and>
             truthy (fst (is_content_relevant e c p q
                       (snd (scrape_webpage_content e (link (rest ! (k - 1))) tr1))))"
        then obtain c tr1 where
          "fst (try_in_order e n rest p q tr') = Some c" "0 < k"
          "fst (scrape_webpage_content e (link (rest ! (k - 1))) tr1) = Some c"
          "truthy (fst (is_content_relevant e c p q
                       (snd (scrape_webpage_content e (link (rest ! (k - 1))) tr1))))"
          by blast
        with nth show ?thesis by auto
      qed
      from a b c show ?thesis by blast
    qed
    show ?thesis
    proof (cases page)
      case None
      with unfold continue [OF f2] show ?thesis by simp
    next
      case (Some page_content)
      obtain relevant tr3 where
        rel: "is_content_relevant e page_content p q tr2 = (relevant, tr3)"
        by (cases "is_content_relevant e page_content p q tr2")
      have f3: "fetched tr3 = fetched tr @ [link r]"
        using fetched_is_content_relevant [of e page_content p q tr2] rel f2 by simp
      show ?thesis
      proof (cases "truthy relevant")
        case False
        with unfold Some rel continue [OF f3] show ?thesis by simp
      next
        case True
        have res: "try_in_order e (Suc n) rs p q tr = (Some page_content, tr3)"
          using unfold Some rel True by simp
        have a: "(1::nat) \<le> min (Suc n) (length rs)" using Cons by simp
        have b: "fetched tr3 = fetched tr @ map link (take 1 rs)" using f3 Cons by simp
        have c: "fst (scrape_webpage_content e (link (rs ! (1 - 1))) ?tr1) = Some page_content"
          using scr Some Cons by simp
        have d: "truthy (fst (is_content_relevant e page_content p q
                   (snd (scrape_webpage_content e (link (rs ! (1 - 1))) ?tr1))))"
          using scr rel True Cons by simp
        show ?thesis
          apply (rule exI [of _ 1])
          using res a b c d by auto
      qed
    qed
  qed
qed

text \<open>A first candidate whose page is scraped and judged relevant ends the loop.\<close>

lemma try_in_order_stops_at_first:
  assumes "fst (scrape_webpage_content e (link r)
                 (snd (select_best_search_result_id e (r # rest) p q tr))) = Some c"
    and "truthy (fst (is_content_relevant e c p q
                 (snd (scrape_webpage_content e (link r)
                        (snd (select_best_search_result_id e (r # rest) p q tr))))))"
  shows "fst (try_in_order e (Suc n) (r # rest) p q tr) = Some c \<and>
         fetched (snd (try_in_order e (Suc n) (r # rest) p q tr)) = fetched tr @ [link r]"
proof -
  let ?tr1 = "snd (select_best_search_result_id e (r # rest) p q tr)"
  obtain tr2 where scr: "scrape_webpage_content e (link r) ?tr1 = (Some c, tr2)"
    using assms(1) by (cases "scrape_webpage_content e (link r) ?tr1") simp
  obtain relevant tr3 where rel: "is_content_relevant e c p q tr2 = (relevant, tr3)"
    by (cases "is_content_relevant e c p q tr2")
  have t: "truthy relevant" using assms(2) scr rel by simp
  have f2: "fetched tr2 = fetched tr @ [link r]"
    using scrape_trace [of e "link r" ?tr1] scr fetched_select_best [of e "r # rest" p q tr]
    by simp
  have f3: "fetched tr3 = fetched tr @ [link r]"
    using fetched_is_content_relevant [of e c p q tr2] rel f2 by simp
  from scr rel t f3 show ?thesis by simp
qed

lemma no_selection_throughout_at_all_traces:
  "\<forall>rs' t. length rs' \<le> length rs \<longrightarrow>
      fst (select_best_search_result_id e rs' p q t) = Inr None \<Longrightarrow>
   \<forall>t. no_selection_throughout e n rs p q t"
proof (induction n arbitrary: rs)
  case 0
  show ?case by simp
next
  case (Suc n)
  show ?case
  proof (cases rs)
    case Nil
    then show ?thesis by simp
  next
    case (Cons r rest)
    have "\<forall>rs' t. length rs' \<le> length rest \<longrightarrow>
        fst (select_best_search_result_id e rs' p q t) = Inr None"
      using Suc.prems Cons by simp
    then have rec: "\<forall>t. no_selection_throughout e n rest p q t"
      by (rule Suc.IH)
    show ?thesis
    proof
      fix t
      have here: "fst (select_best_search_result_id e (r # rest) p q t) = Inr None"
        using Suc.prems Cons by simp
      obtain page tr2 where scr: "scrape_webpage_content e (link r)
          (snd (select_best_search_result_id e (r # rest) p q t)) = (page, tr2)"
        by (cases "scrape_webpage_content e (link r)
          (snd (select_best_search_result_id e (r # rest) p q t))")
      show "no_selection_throughout e (Suc n) rs p q t"
      proof (cases page)
        case None
        with Cons here scr rec show ?thesis by simp
      next
        case (Some page_content)
        obtain relevant tr3 where
          rel: "is_content_relevant e page_content p q tr2 = (relevant, tr3)"
          by (cases "is_content_relevant e page_content p q tr2")
        with Cons here scr Some rec show ?thesis by simp
      qed
    qed
  qed
qed

lemma no_selection_throughout_if_never:
  "\<forall>rs' t. length rs' \<le> length rs \<longrightarrow>
      fst (select_best_search_result_id e rs' p q t) = Inr None \<Longrightarrow>
   no_selection_throughout e n rs p q tr"
  using no_selection_throughout_at_all_traces by blast

text \<open>Facts about the worlds of the instances.\<close>

lemma fixed_env_unparseable_reply:
  "fst (select_best_search_result_id (fixed_env (Some ''true'') divs page outcome) rs p q tr) = Inr None"
proof -
  have "py_int ''true'' = Inl ValueError"
    by (simp add: py_int_def int_space_def digits_def is_digit_def)
  then show ?thesis
    by (simp add: select_best_search_result_id_def SEARCH_RETRY_LIMIT_def numeral_3_eq_3
        call_ollama_chat_def fixed_env_def)
qed

lemma fixed_env_out_of_range_reply:
  assumes "length rs \<le> 7"
  shows "fst (select_best_search_result_id (fixed_env (Some ''7'') divs page outcome) rs p q tr) = Inr None"
proof -
  have "py_int ''7'' = Inr 7"
    by (simp add: py_int_def int_space_def digits_def is_digit_def digit_val_def max_str_digits_def)
  with assms show ?thesis
    by (simp add: select_best_search_result_id_def SEARCH_RETRY_LIMIT_def numeral_3_eq_3
        call_ollama_chat_def fixed_env_def)
qed

lemma fixed_env_scrape:
  "page \<noteq> [] \<Longrightarrow>
   scrape_webpage_content (fixed_env reply divs (Some page) outcome) url tr =
     (Some page, tr @ [FetchUrl url])"
  by (simp add: scrape_webpage_content_def fixed_env_def)

lemma fixed_env_relevant:
  "fst (is_content_relevant (fixed_env (Some ''true'') divs page outcome) t p q tr) = PyBool True"
  by (simp add: is_content_relevant_def call_ollama_chat_def fixed_env_def true_in_def
      lower_def lower_char_def relevance_user_data_def)

text \<open>
  C5. Take a run whose search, for its non-empty query, returns the non-empty list \<open>rs\<close>, and
  in which \<open>select_best_search_result_id\<close> returns \<open>None\<close> on every call that is made. Then
  the run is the loop that tries the candidates of \<open>rs\<close> in their order, with the bound
  \<open>min(len(rs), 3)\<close>: it fetches the links of the first \<open>k\<close> candidates of \<open>rs\<close> in their
  order, one per iteration and each taken from the front of the working list, for some
  \<open>k\<close> from 1 to that bound; either no page was relevant, \<open>k\<close> is the bound and the run
  returns \<open>None\<close>, or the page of candidate \<open>k\<close> was scraped and judged relevant, and the
  run returns it; and a first candidate whose page is scraped and judged relevant is
  returned after this one fetch.
\<close>

theorem run_ai_search_pipeline_first_in_first_out:
  assumes gen: "fst (generate_search_query e p tr) = Some q"
    and q: "q \<noteq> []"
    and rs: "rs = fst (perform_duckduckgo_search e q (snd (generate_search_query e p tr)))"
    and tr2: "tr2 = snd (perform_duckduckgo_search e q (snd (generate_search_query e p tr)))"
    and nonempty: "rs \<noteq> []"
    and sel: "no_selection_throughout e (min (length rs) 3) rs p q tr2"
  shows "run_ai_search_pipeline e p tr =
           (Inr (fst (try_in_order e (min (length rs) 3) rs p q tr2)),
            snd (try_in_order e (min (length rs) 3) rs p q tr2)) \<and>
     (\<exists>k. 0 < k \<and> k \<le> min (length rs) 3 \<and>
        fetched (snd (run_ai_search_pipeline e p tr)) = fetched tr @ map link (take k rs) \<and>
        ((fst (run_ai_search_pipeline e p tr) = Inr None \<and> k = min (length rs) 3) \<or>
         (\<exists>c tr1. fst (run_ai_search_pipeline e p tr) = Inr (Some c) \<and>
            fst (scrape_webpage_content e (link (rs ! (k - 1))) tr1) = Some c \<and>
            truthy (fst (is_content_relevant e c p q
                      (snd (scrape_webpage_content e (link (rs ! (k - 1))) tr1))))))) \<and>
     (\<forall>c. fst (scrape_webpage_content e (link (hd rs))
                 (snd (select_best_search_result_id e rs p q tr2))) = Some c \<longrightarrow>
          truthy (fst (is_content_relevant e c p q
                 (snd (scrape_webpage_content e (link (hd rs))
                        (snd (select_best_search_result_id e rs p q tr2)))))) \<longrightarrow>
          fst (run_ai_search_pipeline e p tr) = Inr (Some c) \<and>
          fetched (snd (run_ai_search_pipeline e p tr)) = fetched tr @ [link (hd rs)])"
proof -
  let ?n = "min (length rs) 3"
  obtain tr1 where g: "generate_search_query e p tr = (Some q, tr1)"
    using gen by (cases "generate_search_query e p tr") simp
  have s: "perform_duckduckgo_search e q tr1 = (rs, tr2)"
    using rs tr2 g by simp
  have f1: "fetched tr1 = fetched tr"
    using fetched_generate_search_query [of e p tr] g by simp
  have f2: "fetched tr2 = fetched tr"
    using fetched_perform_duckduckgo_search [of e q tr1] s f1 by simp
  have "run_ai_search_pipeline e p tr = pipeline_loop e ?n rs p q tr2"
    using g s q nonempty by (simp add: run_ai_search_pipeline_def SEARCH_RETRY_LIMIT_def)
  also have "\<dots> = (Inr (fst (try_in_order e ?n rs p q tr2)), snd (try_in_order e ?n rs p q tr2))"
    using sel by (rule pipeline_loop_tries_in_order)
  finally have run: "run_ai_search_pipeline e p tr =
      (Inr (fst (try_in_order e ?n rs p q tr2)), snd (try_in_order e ?n rs p q tr2))" .
  from try_in_order_fetched [of ?n rs e p q tr2]
  obtain k where k: "k \<le> min ?n (length rs)"
    and fk: "fetched (snd (try_in_order e ?n rs p q tr2)) = fetched tr2 @ map link (take k rs)"
    and res: "(fst (try_in_order e ?n rs p q tr2) = None \<and> k = min ?n (length rs)) \<or>
      (\<exists>c tr1. fst (try_in_order e ?n rs p q tr2) = Some c \<and> 0 < k \<and>
         fst (scrape_webpage_content e (link (rs ! (k - 1))) tr1) = Some c \<and>
         truthy (fst (is_content_relevant e c p q
                   (snd (scrape_webpage_content e (link (rs ! (k - 1))) tr1)))))"
    by blast
  have m: "min ?n (length rs) = ?n" by simp
  have pos: "0 < ?n" using nonempty by simp
  from res have kpos: "0 < k" using m pos by auto
  have prefix: "\<exists>k. 0 < k \<and> k \<le> ?n \<and>
        fetched (snd (run_ai_search_pipeline e p tr)) = fetched tr @ map link (take k rs) \<and>
        ((fst (run_ai_search_pipeline e p tr) = Inr None \<and> k = ?n) \<or>
         (\<exists>c tr1. fst (run_ai_search_pipeline e p tr) = Inr (Some c) \<and>
            fst (scrape_webpage_content e (link (rs ! (k - 1))) tr1) = Some c \<and>
            truthy (fst (is_content_relevant e c p q
                      (snd (scrape_webpage_content e (link (rs ! (k - 1))) tr1))))))"
    using k kpos fk res unfolding run m f2 by (intro exI [of _ k]) auto
  obtain r rest where cons: "rs = r # rest" using nonempty by (cases rs) auto
  obtain n' where n': "?n = Suc n'" using pos by (cases ?n) auto
  have first: "\<forall>c. fst (scrape_webpage_content e (link (hd rs))
                 (snd (select_best_search_result_id e rs p q tr2))) = Some c \<longrightarrow>
          truthy (fst (is_content_relevant e c p q
                 (snd (scrape_webpage_content e (link (hd rs))
                        (snd (select_best_search_result_id e rs p q tr2)))))) \<longrightarrow>
          fst (run_ai_search_pipeline e p tr) = Inr (Some c) \<and>
          fetched (snd (run_ai_search_pipeline e p tr)) = fetched tr @ [link (hd rs)]"
  proof (intro allI impI)
    fix c
    assume a: "fst (scrape_webpage_content e (link (hd rs))
                 (snd (select_best_search_result_id e rs p q tr2))) = Some c"
      and b: "truthy (fst (is_content_relevant e c p q
                 (snd (scrape_webpage_content e (link (hd rs))
                        (snd (select_best_search_result_id e rs p q tr2))))))"
    have a': "fst (scrape_webpage_content e (link r)
                 (snd (select_best_search_result_id e (r # rest) p q tr2))) = Some c"
      using a unfolding cons by simp
    have b': "truthy (fst (is_content_relevant e c p q
                 (snd (scrape_webpage_content e (link r)
                        (snd (select_best_search_result_id e (r # rest) p q tr2))))))"
      using b unfolding cons by simp
    have st: "fst (try_in_order e (Suc n') (r # rest) p q tr2) = Some c \<and>
       fetched (snd (try_in_order e (Suc n') (r # rest) p q tr2)) = fetched tr2 @ [link r]"
      using a' b' by (rule try_in_order_stops_at_first)
    have eq: "try_in_order e ?n rs p q tr2 = try_in_order e (Suc n') (r # rest) p q tr2"
      unfolding n' unfolding cons ..
    have hd: "link (hd rs) = link r" unfolding cons by simp
    show "fst (run_ai_search_pipeline e p tr) = Inr (Some c) \<and>
          fetched (snd (run_ai_search_pipeline e p tr)) = fetched tr @ [link (hd rs)]"
      unfolding run eq hd using st f2 by (simp del: try_in_order.simps)
  qed
  from run prefix first show ?thesis by blast
qed

theorem run_ai_search_pipeline_first_in_first_out_witness:
  "fst (generate_search_query (fixed_env (Some ''true'') four_divs (Some ''page'') ChatRaises) ''p'' [])
     = Some ''true'' \<and>
   map link (fst (perform_duckduckgo_search (fixed_env (Some ''true'') four_divs (Some ''page'') ChatRaises)
        ''true''
        (snd (generate_search_query (fixed_env (Some ''true'') four_divs (Some ''page'') ChatRaises) ''p'' []))))
     = [''http://a'', ''http://b'', ''http://c'', ''http://d''] \<and>
   fst (run_ai_search_pipeline (fixed_env (Some ''true'') four_divs (Some ''page'') ChatRaises) ''p'' [])
     = Inr (Some ''page'') \<and>
   fetched (snd (run_ai_search_pipeline (fixed_env (Some ''true'') four_divs (Some ''page'') ChatRaises) ''p'' []))
     = [''http://a''] \<and>
   fst (generate_search_query (fixed_env (Some ''7'') four_divs (Some ''page'') ChatRaises) ''p'' [])
     = Some ''7'' \<and>
   fst (run_ai_search_pipeline (fixed_env (Some ''7'') four_divs (Some ''page'') ChatRaises) ''p'' [])
     = Inr None \<and>
   fetched (snd (run_ai_search_pipeline (fixed_env (Some ''7'') four_divs (Some ''page'') ChatRaises) ''p'' []))
     = [''http://a'', ''http://b'', ''http://c'']"
proof -
  let ?e = "fixed_env (Some ''true'') four_divs (Some ''page'') ChatRaises"
  let ?rs = "fst (perform_duckduckgo_search ?e ''true'' (snd (generate_search_query ?e ''p'' [])))"
  let ?tr2 = "snd (perform_duckduckgo_search ?e ''true'' (snd (generate_search_query ?e ''p'' [])))"
  let ?f = "fixed_env (Some ''7'') four_divs (Some ''page'') ChatRaises"
  let ?rf = "fst (perform_duckduckgo_search ?f ''7'' (snd (generate_search_query ?f ''p'' [])))"
  let ?tf = "snd (perform_duckduckgo_search ?f ''7'' (snd (generate_search_query ?f ''p'' [])))"
  have gen: "fst (generate_search_query ?e ''p'' []) = Some ''true''" by code_simp
  have q: "''true'' \<noteq> []" by simp
  have links: "map link ?rs = [''http://a'', ''http://b'', ''http://c'', ''http://d'']"
    by code_simp
  then have nonempty: "?rs \<noteq> []" by auto
  have first: "link (hd ?rs) = ''http://a''"
    using links nonempty by (cases ?rs) simp_all
  have sel: "no_selection_throughout ?e (min (length ?rs) 3) ?rs ''p'' ''true'' ?tr2"
    by (rule no_selection_throughout_if_never) (simp add: fixed_env_unparseable_reply)
  have scraped: "fst (scrape_webpage_content ?e (link (hd ?rs))
        (snd (select_best_search_result_id ?e ?rs ''p'' ''true'' ?tr2))) = Some ''page''"
    by (simp add: fixed_env_scrape)
  have relevant: "truthy (fst (is_content_relevant ?e ''page'' ''p'' ''true''
        (snd (scrape_webpage_content ?e (link (hd ?rs))
               (snd (select_best_search_result_id ?e ?rs ''p'' ''true'' ?tr2))))))"
    by (simp add: fixed_env_relevant truthy_def)
  from run_ai_search_pipeline_first_in_first_out [OF gen q refl refl nonempty sel] scraped relevant
  have "fst (run_ai_search_pipeline ?e ''p'' []) = Inr (Some ''page'') \<and>
        fetched (snd (run_ai_search_pipeline ?e ''p'' [])) = fetched [] @ [link (hd ?rs)]"
    by blast
  then have r1: "fst (run_ai_search_pipeline ?e ''p'' []) = Inr (Some ''page'')"
    and r2: "fetched (snd (run_ai_search_pipeline ?e ''p'' [])) = [''http://a'']"
    by (simp_all add: first)
  have genf: "fst (generate_search_query ?f ''p'' []) = Some ''7''" by code_simp
  have qf: "''7'' \<noteq> []" by simp
  have linksf: "map link ?rf = [''http://a'', ''http://b'', ''http://c'', ''http://d'']"
    by code_simp
  then have nonemptyf: "?rf \<noteq> []" by auto
  have "length (map link ?rf) = 4" unfolding linksf by simp
  then have lenf: "length ?rf = 4" by simp
  have self: "no_selection_throughout ?f (min (length ?rf) 3) ?rf ''p'' ''7'' ?tf"
    by (rule no_selection_throughout_if_never) (simp add: fixed_env_out_of_range_reply lenf)
  have none: "fst (run_ai_search_pipeline ?f ''p'' []) = Inr None" by code_simp
  from run_ai_search_pipeline_first_in_first_out [OF genf qf refl refl nonemptyf self]
  obtain k where
    fk: "fetched (snd (run_ai_search_pipeline ?f ''p'' [])) = fetched [] @ map link (take k ?rf)"
    and res: "(fst (run_ai_search_pipeline ?f ''p'' []) = Inr None \<and> k = min (length ?rf) 3) \<or>
      (\<exists>c tr1. fst (run_ai_search_pipeline ?f ''p'' []) = Inr (Some c) \<and>
         fst (scrape_webpage_content ?f (link (?rf ! (k - 1))) tr1) = Some c \<and>
         truthy (fst (is_content_relevant ?f c ''p'' ''7''
                   (snd (scrape_webpage_content ?f (link (?rf ! (k - 1))) tr1)))))"
    by blast
  from res none have "k = min (length ?rf) 3" by auto
  with lenf have k: "k = 3" by simp
  have "map link (take 3 ?rf) = take 3 (map link ?rf)" by (simp add: take_map)
  also have "\<dots> = [''http://a'', ''http://b'', ''http://c'']" by (simp add: linksf)
  finally have s2: "fetched (snd (run_ai_search_pipeline ?f ''p'' [])) =
      [''http://a'', ''http://b'', ''http://c'']"
    using fk k by simp
  from gen links r1 r2 genf none s2 show ?thesis by blast
qed

section \<open>User turns that follow one another\<close>

lemma consecutive_users_snoc:
  "consecutive_users (h @ [t]) =
     (consecutive_users h \<or> (h \<noteq> [] \<and> role (last h) = ''user'' \<and> role t = ''user''))"
  by (induction h rule: consecutive_users.induct) auto

lemma replace_pending_user_turn_shape:
  assumes "h \<noteq> []"
  shows "\<exists>c. replace_pending_user_turn h ctx = Inr (butlast h @ [\<lparr>role = ''user'', content = c\<rparr>])"
  using assms by (auto simp: replace_pending_user_turn_def Let_def split: option.splits)

text \<open>
  C2, as the code has it. The search branch of \<open>main\<close> replaces the pending user turn: it
  pops the last turn and appends one user turn, so that the length and all earlier
  turns are as before and there are two neighbouring user turns after it exactly when
  there were before. \<open>stream_and_record_assistant_response\<close> appends one turn of the
  assistant or nothing, and so never brings two user turns together either.
\<close>

theorem pending_user_turn_is_replaced:
  "(h \<noteq> [] \<and> role (last h) = ''user'' \<longrightarrow>
      (\<exists>h'. replace_pending_user_turn h ctx = Inr h' \<and> length h' = length h \<and>
            butlast h' = butlast h \<and> role (last h') = ''user'' \<and>
            consecutive_users h' = consecutive_users h)) \<and>
   consecutive_users (fst (stream_and_record_assistant_response e h tr)) = consecutive_users h"
proof
  show "h \<noteq> [] \<and> role (last h) = ''user'' \<longrightarrow>
      (\<exists>h'. replace_pending_user_turn h ctx = Inr h' \<and> length h' = length h \<and>
            butlast h' = butlast h \<and> role (last h') = ''user'' \<and>
            consecutive_users h' = consecutive_users h)"
  proof
    assume a: "h \<noteq> [] \<and> role (last h) = ''user''"
    then obtain c where
      r: "replace_pending_user_turn h ctx = Inr (butlast h @ [\<lparr>role = ''user'', content = c\<rparr>])"
      using replace_pending_user_turn_shape by blast
    let ?h' = "butlast h @ [\<lparr>role = ''user'', content = c\<rparr>]"
    have old: "consecutive_users (butlast h @ [last h]) =
        (consecutive_users (butlast h) \<or>
         (butlast h \<noteq> [] \<and> role (last (butlast h)) = ''user'' \<and> role (last h) = ''user''))"
      by (rule consecutive_users_snoc)
    have new: "consecutive_users ?h' =
        (consecutive_users (butlast h) \<or>
         (butlast h \<noteq> [] \<and> role (last (butlast h)) = ''user'' \<and>
          role \<lparr>role = ''user'', content = c\<rparr> = ''user''))"
      by (rule consecutive_users_snoc)
    have "butlast h @ [last h] = h" using a by simp
    with old have "consecutive_users h =
        (consecutive_users (butlast h) \<or>
         (butlast h \<noteq> [] \<and> role (last (butlast h)) = ''user'' \<and> role (last h) = ''user''))"
      by simp
    with new a have same: "consecutive_users ?h' = consecutive_users h" by simp
    have len: "length ?h' = length h" using a by simp
    from r len same show "\<exists>h'. replace_pending_user_turn h ctx = Inr h' \<and> length h' = length h \<and>
            butlast h' = butlast h \<and> role (last h') = ''user'' \<and>
            consecutive_users h' = consecutive_users h"
      by (intro exI [of _ ?h']) simp
  qed
next
  show "consecutive_users (fst (stream_and_record_assistant_response e h tr)) = consecutive_users h"
    by (simp add: stream_and_record_assistant_response_def consecutive_users_snoc
        split: stream_outcome.splits)
qed

theorem pending_user_turn_is_replaced_witness:
  "[\<lparr>role = ''system'', content = ''s''\<rparr>, \<lparr>role = ''user'', content = ''q''\<rparr>] \<noteq> [] \<and>
   role (last [\<lparr>role = ''system'', content = ''s''\<rparr>, \<lparr>role = ''user'', content = ''q''\<rparr>]) = ''user'' \<and>
   replace_pending_user_turn [\<lparr>role = ''system'', content = ''s''\<rparr>, \<lparr>role = ''user'', content = ''q''\<rparr>]
       (Some ''page'') =
     Inr [\<lparr>role = ''system'', content = ''s''\<rparr>,
          \<lparr>role = ''user'', content = prompt_with_context ''page'' ''q''\<rparr>] \<and>
   \<not> consecutive_users [\<lparr>role = ''system'', content = ''s''\<rparr>,
          \<lparr>role = ''user'', content = prompt_with_context ''page'' ''q''\<rparr>] \<and>
   \<not> consecutive_users (fst (stream_and_record_assistant_response
        (fixed_env None [] None (StreamEnds [''ok'']))
        [\<lparr>role = ''system'', content = ''s''\<rparr>, \<lparr>role = ''user'', content = ''q''\<rparr>] []))"
  using pending_user_turn_is_replaced
    [of "[\<lparr>role = ''system'', content = ''s''\<rparr>, \<lparr>role = ''user'', content = ''q''\<rparr>]"
        "Some ''page''" "fixed_env None [] None (StreamEnds [''ok''])" "[]"]
  by (simp add: replace_pending_user_turn_def)

text \<open>
  Two lines typed one after the other leave two neighbouring user turns in the history
  of \<open>main\<close>. So does, after a streaming call that failed on the history ending in a user
  turn, the user turn that the next iteration appends.
\<close>

theorem two_user_turns_in_a_row:
  "fst (main (fixed_env (Some ''true'') three_divs (Some ''page'') (StreamRaises [''par''])) [''hello'', ''again'']) =
     [\<lparr>role = ''system'', content = ''You are an AI assistant.''\<rparr>,
      \<lparr>role = ''user'', content = ''hello''\<rparr>, \<lparr>role = ''user'', content = ''again''\<rparr>] \<and>
   consecutive_users
     (fst (main (fixed_env (Some ''true'') three_divs (Some ''page'') (StreamRaises [''par'']))
        [''hello'', ''again''])) \<and>
   consecutive_users
     (fst (stream_and_record_assistant_response
             (fixed_env (Some ''true'') three_divs (Some ''page'') (StreamRaises [''par'']))
             [\<lparr>role = ''system'', content = ''s''\<rparr>, \<lparr>role = ''user'', content = ''hello''\<rparr>] [])
      @ [\<lparr>role = ''user'', content = ''again''\<rparr>])"
  by code_simp

end
